theory Spec2Isabelle
  imports Complex_Main "HOL-Library.Log_Nat" "HOL-Library.Sublist"
begin

section \<open>The OAC client: token lifecycle and authenticated requests\<close>

text \<open>
  A shallow embedding of \<^verbatim>\<open>oac-client/core/oac/oac_client.go\<close>. The receiver
  \<^verbatim>\<open>*OacClient\<close> is passed in and returned; everything outside the process (the clock,
  the cache file, the identity provider, the HTTP server, the file system) is either a
  field of the mutable \<open>state\<close> or an oracle of the record \<open>extern\<close>. Errors are values.
\<close>

subsection \<open>Time\<close>

text \<open>
  A \<^verbatim>\<open>time.Time\<close> is the number of nanoseconds since the Unix epoch, a
  \<^verbatim>\<open>time.Duration\<close> a number of nanoseconds. Both are unbounded integers here: the
  program only adds an hour or a minute to clock readings and provider expiries, far from
  the ends of Go's range. Wall clock and monotonic clock are one time line.
\<close>

type_synonym time = int
type_synonym duration = int

definition Second :: duration where
  "Second = 1000000000"

definition Minute :: duration where
  "Minute = 60 * Second"

definition Hour :: duration where
  "Hour = 60 * Minute"

definition zeroTime :: time where
  \<comment> \<open>the zero \<^verbatim>\<open>time.Time\<close>: January 1, year 1, 00:00:00 UTC\<close>
  "zeroTime = - 62135596800 * Second"

definition IsZero :: "time \<Rightarrow> bool" where
  "IsZero t = (t = zeroTime)"

definition Before :: "time \<Rightarrow> time \<Rightarrow> bool" where
  "Before t u = (t < u)"

definition After :: "time \<Rightarrow> time \<Rightarrow> bool" where
  "After t u = (u < t)"

definition Add :: "time \<Rightarrow> duration \<Rightarrow> time" where
  "Add t d = t + d"

definition Unix :: "time \<Rightarrow> int" where
  \<comment> \<open>\<^verbatim>\<open>t.Unix()\<close>: whole seconds since the epoch, rounded down\<close>
  "Unix t = t div Second"

definition time_Unix :: "int \<Rightarrow> int \<Rightarrow> time" where
  \<comment> \<open>\<^verbatim>\<open>time.Unix(sec, nsec)\<close>\<close>
  "time_Unix sec nsec = sec * Second + nsec"

subsection \<open>Values decoded from JSON, and the two number conversions\<close>

text \<open>
  What \<^verbatim>\<open>json.Unmarshal\<close> stores in an \<^verbatim>\<open>any\<close>: nil, bool, float64, string,
  slice or map. A float64 is the rational number it denotes.
\<close>

datatype json =
    JNull
  | JBool bool
  | JNumber rat
  | JString string
  | JArray "json list"
  | JObject "(string \<times> json) list"

definition float64_of_int :: "int \<Rightarrow> rat" where
  \<comment> \<open>the float64 that \<^verbatim>\<open>json.Unmarshal\<close> reads from the decimal digits of an integer:
      the nearest number with a 53-bit significand, ties to even\<close>
  "float64_of_int n =
     (let a = \<bar>n\<bar>; k = bitlen a - 53
      in if k \<le> 0 then of_int n
         else let p = 2 ^ nat k; q = a div p; r = a mod p; h = 2 ^ nat (k - 1);
                  q' = (if h < r \<or> (r = h \<and> odd q) then q + 1 else q)
              in of_int (sgn n * q' * p))"

definition int64 :: "rat \<Rightarrow> int" where
  \<comment> \<open>the conversion \<^verbatim>\<open>int64(x)\<close> of a float64: the fraction is discarded. Outside int64
      Go leaves the value to the implementation; amd64 yields the least int64.\<close>
  "int64 x =
     (let n = (if 0 \<le> x then \<lfloor>x\<rfloor> else \<lceil>x\<rceil>)
      in if - (2 ^ 63) \<le> n \<and> n < 2 ^ 63 then n else - (2 ^ 63))"

subsection \<open>The client, its configuration and its errors\<close>

record OacClient =
  AccessToken :: string
  TokenExpiry :: time

text \<open>The environment variables the client reads; an unset variable reads as the empty string.\<close>

record environ =
  IDCS_TOKEN_URL :: string
  IDCS_OAC_CLIENT_ID :: string
  IDCS_OAC_CLIENT_SECRET :: string
  IDCS_OAC_SCOPE :: string
  OAC_USERNAME :: string
  OAC_PASSWORD :: string
  IDCS_GRANT_TYPE :: string
  OAC_INSTANCE :: string

text \<open>
  The errors the client returns. The first five are built by \<^verbatim>\<open>fmt.Errorf\<close>; the last
  four are errors of \<^verbatim>\<open>os\<close>, \<^verbatim>\<open>net/http\<close>, \<^verbatim>\<open>io\<close> and \<^verbatim>\<open>encoding/json\<close> returned
  unchanged, each with the library's message.
\<close>

datatype error =
    MissingEnv
  | MissingUserPass
  | UnsupportedGrant string
  | FailedToObtain string
  | RequestFailed int string
  | OsError string
  | HttpError string
  | IoError string
  | JsonError string

fun digits :: "nat \<Rightarrow> string" where
  "digits n = (if n < 10 then [char_of (48 + n)] else digits (n div 10) @ [char_of (48 + n mod 10)])"

declare digits.simps [simp del]

definition itoa :: "int \<Rightarrow> string" where
  \<comment> \<open>the verb \<^verbatim>\<open>%d\<close>\<close>
  "itoa i = (if i < 0 then CHR ''-'' # digits (nat (- i)) else digits (nat i))"

fun Error :: "error \<Rightarrow> string" where
  "Error MissingEnv = ''missing required environment variables''"
| "Error MissingUserPass = ''username/password must be set for password grant''"
| "Error (UnsupportedGrant g) = ''unsupported grant type: '' @ g"
| "Error (FailedToObtain e) = ''failed to obtain token: '' @ e"
| "Error (RequestFailed code body) = ''request failed: '' @ itoa code @ '' '' @ body"
| "Error (OsError e) = e"
| "Error (HttpError e) = e"
| "Error (IoError e) = e"
| "Error (JsonError e) = e"

subsection \<open>The outside world\<close>

text \<open>
  A token exchange of the oauth2 library, with the fields the client fills in:
  \<^verbatim>\<open>clientcredentials.Config.Token\<close> and \<^verbatim>\<open>oauth2.Config.PasswordCredentialsToken\<close>.
\<close>

record oauth2_Config =
  ClientID :: string
  ClientSecret :: string
  TokenURL :: string
  Scopes :: "string list"

datatype exchange =
    ClientCredentials oauth2_Config
  | PasswordCredentials oauth2_Config string string

record oauth2_Token =
  tok_AccessToken :: string
  tok_Expiry :: time

text \<open>
  An \<^verbatim>\<open>*http.Request\<close>. \<open>Body\<close> is the part of the body reader that has not been read
  yet: \<^verbatim>\<open>http.NewRequest\<close> wraps the payload in a reader, and sending the request reads
  it.
\<close>

record Request =
  Method :: string
  URL :: string
  Header :: "string \<rightharpoonup> string"
  ContentLength :: nat
  Body :: string

text \<open>
  An \<^verbatim>\<open>*http.Response\<close>: the status code, and what \<^verbatim>\<open>io.ReadAll(resp.Body)\<close> returns,
  the bytes read and the error that stopped the read, if any.
\<close>

record Response =
  StatusCode :: int
  RespBody :: string
  ReadErr :: "string option"

datatype event =
    TokenExchange exchange
  | HttpDo Request

text \<open>The cache file, by what reading and decoding it gives.\<close>

datatype cache_file =
    Absent
  | Malformed
  | Decoded "string \<rightharpoonup> json"

text \<open>
  The oracles: the clock (the n-th reading of \<^verbatim>\<open>time.Now()\<close>), the identity provider
  (its answer to the n-th exchange), the HTTP server and transport (the outcome of the
  n-th \<^verbatim>\<open>Do\<close>), the file system for body files, whether the cache file can be written,
  the checks of \<^verbatim>\<open>http.NewRequest\<close> on method and URL, and \<^verbatim>\<open>encoding/json\<close> on a
  response body.
\<close>

record extern =
  clock :: "nat \<Rightarrow> time"
  idp :: "nat \<Rightarrow> exchange \<Rightarrow> string + oauth2_Token"
  server :: "nat \<Rightarrow> Request \<Rightarrow> string + Response"
  Stat :: "string \<Rightarrow> bool"
  ReadFile :: "string \<Rightarrow> string + string"
  WriteFails :: bool
  NewRequestErr :: "string \<Rightarrow> string \<Rightarrow> string option"
  Unmarshal_map :: "string \<Rightarrow> string + json"
  Unmarshal_slice :: "string \<Rightarrow> string + json"
  MarshalIndent :: "json \<Rightarrow> string"

text \<open>
  The mutable state: how many times the clock has been read, the cache file, and the
  log of the network calls made so far.
\<close>

record state =
  ticks :: nat
  tokenFile :: cache_file
  trace :: "event list"

definition time_Now :: "extern \<Rightarrow> state \<Rightarrow> time \<times> state" where
  "time_Now ext s = (clock ext (ticks s), s\<lparr>ticks := Suc (ticks s)\<rparr>)"

fun is_exchange :: "event \<Rightarrow> bool" where
  "is_exchange (TokenExchange _) = True"
| "is_exchange (HttpDo _) = False"

fun is_http :: "event \<Rightarrow> bool" where
  "is_http (HttpDo _) = True"
| "is_http (TokenExchange _) = False"

definition exchanges :: "state \<Rightarrow> nat" where
  "exchanges s = length (filter is_exchange (trace s))"

definition attempts :: "state \<Rightarrow> nat" where
  "attempts s = length (filter is_http (trace s))"

definition Token :: "extern \<Rightarrow> state \<Rightarrow> exchange \<Rightarrow> (string + oauth2_Token) \<times> state" where
  \<comment> \<open>one call of the oauth2 library: the exchange goes over the network, and \<open>idp\<close> gives
      what the library returns\<close>
  "Token ext s x = (idp ext (exchanges s) x, s\<lparr>trace := trace s @ [TokenExchange x]\<rparr>)"

definition RetrieveToken :: "oauth2_Token \<Rightarrow> string + oauth2_Token" where
  \<comment> \<open>what the oauth2 library returns when the provider's response decodes to this token:
      a response with no access token is turned into an error\<close>
  "RetrieveToken resp =
     (if tok_AccessToken resp = [] then Inl ''oauth2: server response missing access_token''
      else Inr resp)"

definition Do :: "extern \<Rightarrow> state \<Rightarrow> Request \<Rightarrow> (string + Response) \<times> state \<times> Request" where
  \<comment> \<open>\<^verbatim>\<open>http.DefaultClient.Do(req)\<close>: the request is logged as it is passed in; the call
      reads its body reader to the end and does not rewind it; the outcome, a transport
      error or a response, is the oracle's\<close>
  "Do ext s req =
     (server ext (attempts s) req, s\<lparr>trace := trace s @ [HttpDo req]\<rparr>, req\<lparr>Body := []\<rparr>)"

subsection \<open>The functions of package strings the client calls\<close>

text \<open>
  Go strings are byte strings in UTF-8. The white space of \<^verbatim>\<open>strings.TrimSpace\<close> is
  Unicode's: six ASCII characters, U+0085, U+00A0, U+1680, U+2000 to U+200A, U+2028,
  U+2029, U+202F, U+205F and U+3000, here by their encodings.
\<close>

definition spaceRunes :: "string list" where
  "spaceRunes =
     [[CHR 0x09], [CHR 0x0A], [CHR 0x0B], [CHR 0x0C], [CHR 0x0D], [CHR 0x20],
      [CHR 0xC2, CHR 0x85], [CHR 0xC2, CHR 0xA0], [CHR 0xE1, CHR 0x9A, CHR 0x80],
      [CHR 0xE2, CHR 0x80, CHR 0x80], [CHR 0xE2, CHR 0x80, CHR 0x81],
      [CHR 0xE2, CHR 0x80, CHR 0x82], [CHR 0xE2, CHR 0x80, CHR 0x83],
      [CHR 0xE2, CHR 0x80, CHR 0x84], [CHR 0xE2, CHR 0x80, CHR 0x85],
      [CHR 0xE2, CHR 0x80, CHR 0x86], [CHR 0xE2, CHR 0x80, CHR 0x87],
      [CHR 0xE2, CHR 0x80, CHR 0x88], [CHR 0xE2, CHR 0x80, CHR 0x89],
      [CHR 0xE2, CHR 0x80, CHR 0x8A], [CHR 0xE2, CHR 0x80, CHR 0xA8],
      [CHR 0xE2, CHR 0x80, CHR 0xA9], [CHR 0xE2, CHR 0x80, CHR 0xAF],
      [CHR 0xE2, CHR 0x81, CHR 0x9F], [CHR 0xE3, CHR 0x80, CHR 0x80]]"

definition runeWidth :: "string list \<Rightarrow> string \<Rightarrow> nat" where
  \<comment> \<open>the number of bytes of the rune of \<open>runes\<close> that \<open>s\<close> starts with, 0 if there is none\<close>
  "runeWidth runes s = (case find (\<lambda>p. prefix p s) runes of None \<Rightarrow> 0 | Some p \<Rightarrow> length p)"

function trimRunes :: "string list \<Rightarrow> string \<Rightarrow> string" where
  "trimRunes runes s =
     (if runeWidth runes s = 0 then s else trimRunes runes (drop (runeWidth runes s) s))"
  by pat_completeness auto
termination
proof (relation "measure (\<lambda>(runes, s). length s)")
  show "wf (measure (\<lambda>(runes, s). length s))"
    by simp
next
  fix runes :: "string list" and s :: string
  assume w: "runeWidth runes s \<noteq> 0"
  have "runeWidth runes [] = 0"
    by (auto simp: runeWidth_def find_Some_iff split: option.splits)
  with w have "s \<noteq> []"
    by metis
  with w show "((runes, drop (runeWidth runes s) s), (runes, s)) \<in> measure (\<lambda>(runes, s). length s)"
    by simp
qed

declare trimRunes.simps [simp del]

definition TrimSpace :: "string \<Rightarrow> string" where
  \<comment> \<open>the leading runes go first, then the trailing ones\<close>
  "TrimSpace s = rev (trimRunes (map rev spaceRunes) (rev (trimRunes spaceRunes s)))"

definition TrimLeft :: "string \<Rightarrow> string \<Rightarrow> string" where
  \<comment> \<open>for a cutset of ASCII characters, as \<^verbatim>\<open>"/"\<close> is\<close>
  "TrimLeft s cutset = dropWhile (\<lambda>c. c \<in> set cutset) s"

definition TrimRight :: "string \<Rightarrow> string \<Rightarrow> string" where
  "TrimRight s cutset = rev (dropWhile (\<lambda>c. c \<in> set cutset) (rev s))"

definition HasPrefix :: "string \<Rightarrow> string \<Rightarrow> bool" where
  "HasPrefix s p = prefix p s"

definition ToUpper :: "string \<Rightarrow> string" where
  \<comment> \<open>on ASCII, which is all a method accepted by \<^verbatim>\<open>http.NewRequest\<close> contains\<close>
  "ToUpper s =
     map (\<lambda>c. if 97 \<le> (of_char c :: nat) \<and> (of_char c :: nat) \<le> 122
               then char_of ((of_char c :: nat) - 32) else c) s"

subsection \<open>Token Store: saveTokenToFile and loadTokenFromFile\<close>

text \<open>
  The file written holds the object that \<^verbatim>\<open>json.Marshal\<close> prints, and is given by what
  \<^verbatim>\<open>json.Unmarshal\<close> reads back from that text: the string as it is, the integer of
  \<^verbatim>\<open>Unix()\<close> as a float64. The errors of \<^verbatim>\<open>os.MkdirAll\<close> and \<^verbatim>\<open>os.WriteFile\<close> are
  dropped; a write that fails leaves the file as it was.
\<close>

definition saveTokenToFile :: "extern \<Rightarrow> state \<Rightarrow> OacClient \<Rightarrow> state" where
  "saveTokenToFile ext s c =
     (if WriteFails ext then s
      else s\<lparr>tokenFile := Decoded
             [''access_token'' \<mapsto> JString (AccessToken c),
              ''expires_at'' \<mapsto> JNumber (float64_of_int (Unix (TokenExpiry c)))]\<rparr>)"

definition loadTokenFromFile :: "extern \<Rightarrow> state \<Rightarrow> OacClient \<Rightarrow> OacClient \<times> state" where
  "loadTokenFromFile ext s c =
     (case tokenFile s of
        Absent \<Rightarrow> (c, s)
      | Malformed \<Rightarrow> (c, s)
      | Decoded data \<Rightarrow>
          (case (data ''access_token'', data ''expires_at'') of
             (Some (JString token), Some (JNumber expires)) \<Rightarrow>
               (let c1 = c\<lparr>AccessToken := token, TokenExpiry := time_Unix (int64 expires) 0\<rparr>;
                    (now, s1) = time_Now ext s
                in if After now (TokenExpiry c1) then (c1\<lparr>AccessToken := []\<rparr>, s1)
                   else (c1, s1))
           | _ \<Rightarrow> (c, s)))"

definition NewOacClient :: "extern \<Rightarrow> state \<Rightarrow> (error + OacClient) \<times> state" where
  "NewOacClient ext s =
     (let (client, s1) = loadTokenFromFile ext s \<lparr>AccessToken = [], TokenExpiry = zeroTime\<rparr>
      in (Inr client, s1))"

subsection \<open>Token Provider: obtainToken\<close>

definition grantDispatch :: "environ \<Rightarrow> error + exchange" where
  \<comment> \<open>lines 49 to 91 of obtainToken without the two library calls: the checks, and the
      exchange the switch chooses\<close>
  "grantDispatch env =
     (let idcsURL = TrimRight (IDCS_TOKEN_URL env) ''/'';
          clientID = IDCS_OAC_CLIENT_ID env;
          clientSecret = IDCS_OAC_CLIENT_SECRET env;
          scope = IDCS_OAC_SCOPE env;
          username = OAC_USERNAME env;
          password = OAC_PASSWORD env;
          grantType = IDCS_GRANT_TYPE env;
          cfg = \<lparr>ClientID = clientID, ClientSecret = clientSecret, TokenURL = idcsURL,
                 Scopes = [scope]\<rparr>
      in if clientID = [] \<or> clientSecret = [] \<or> scope = [] \<or> grantType = [] then Inl MissingEnv
         else if grantType = ''client_credentials'' then Inr (ClientCredentials cfg)
         else if grantType = ''resource_owner'' then
           (if username = [] \<or> password = [] then Inl MissingUserPass
            else Inr (PasswordCredentials cfg username password))
         else Inl (UnsupportedGrant grantType))"

definition obtainToken :: "extern \<Rightarrow> environ \<Rightarrow> state \<Rightarrow> OacClient \<Rightarrow> error option \<times> state \<times> OacClient" where
  "obtainToken ext env s c =
     (case grantDispatch env of
        Inl err \<Rightarrow> (Some err, s, c)
      | Inr x \<Rightarrow>
          (case Token ext s x of
             (Inl err, s1) \<Rightarrow> (Some (FailedToObtain err), s1, c)
           | (Inr token, s1) \<Rightarrow>
               (let c1 = c\<lparr>AccessToken := tok_AccessToken token\<rparr>;
                    (c2, s2) =
                      (if IsZero (tok_Expiry token) then
                         (let (now, s') = time_Now ext s1
                          in (c1\<lparr>TokenExpiry := Add now (Hour - Minute)\<rparr>, s'))
                       else (c1\<lparr>TokenExpiry := Add (tok_Expiry token) (- Minute)\<rparr>, s1))
                in (None, saveTokenToFile ext s2 c2, c2))))"

subsection \<open>Token Manager: GetToken\<close>

definition GetToken :: "extern \<Rightarrow> environ \<Rightarrow> state \<Rightarrow> OacClient \<Rightarrow> (error + string) \<times> state \<times> OacClient" where
  \<comment> \<open>\<^verbatim>\<open>&&\<close> reads the clock only when the token is not empty\<close>
  "GetToken ext env s c =
     (let (fast, s0) =
            (if AccessToken c \<noteq> [] then
               (let (now, s') = time_Now ext s in (Before now (TokenExpiry c), s'))
             else (False, s))
      in if fast then (Inr (AccessToken c), s0, c)
         else (case obtainToken ext env s0 c of
                 (Some err, s1, c1) \<Rightarrow> (Inl err, s1, c1)
               | (None, s1, c1) \<Rightarrow> (Inr (AccessToken c1), s1, c1)))"

subsection \<open>Authenticated Request Executor: RestCall and prettyPrintJSON\<close>

definition prettyPrintJSON :: "extern \<Rightarrow> string \<Rightarrow> error + string" where
  "prettyPrintJSON ext data =
     (let dataStr = TrimSpace data
      in if length dataStr = 0 then Inr ''Request succeeded (no content).''
         else if HasPrefix dataStr ''{'' then
           (case Unmarshal_map ext data of
              Inl err \<Rightarrow> Inl (JsonError err)
            | Inr obj \<Rightarrow> Inr (MarshalIndent ext obj))
         else if HasPrefix dataStr ''['' then
           (case Unmarshal_slice ext data of
              Inl err \<Rightarrow> Inl (JsonError err)
            | Inr arr \<Rightarrow> Inr (MarshalIndent ext arr))
         else Inr dataStr)"

definition resolveBody :: "extern \<Rightarrow> string \<Rightarrow> error + string" where
  \<comment> \<open>lines 116 to 126\<close>
  "resolveBody ext bodyFile =
     (if bodyFile \<noteq> [] then
        (if Stat ext bodyFile then
           (case ReadFile ext bodyFile of Inl err \<Rightarrow> Inl (OsError err) | Inr b \<Rightarrow> Inr b)
         else Inr bodyFile)
      else Inr [])"

definition NewRequest :: "extern \<Rightarrow> string \<Rightarrow> string \<Rightarrow> string \<Rightarrow> error + Request" where
  \<comment> \<open>\<^verbatim>\<open>http.NewRequest(method, url, bytes.NewReader(body))\<close>\<close>
  "NewRequest ext method url body =
     (case NewRequestErr ext method url of
        Some err \<Rightarrow> Inl (HttpError err)
      | None \<Rightarrow>
          Inr \<lparr>Method = (if method = [] then ''GET'' else method), URL = url,
               Header = Map.empty, ContentLength = length body, Body = body\<rparr>)"

definition Header_Set :: "Request \<Rightarrow> string \<Rightarrow> string \<Rightarrow> Request" where
  "Header_Set req k v = req\<lparr>Header := (Header req)(k \<mapsto> v)\<rparr>"

definition respond :: "extern \<Rightarrow> Response \<Rightarrow> error + string" where
  \<comment> \<open>lines 160 to 170: the read error is dropped on the failure path only\<close>
  "respond ext resp =
     (if StatusCode resp < 200 \<or> 300 \<le> StatusCode resp then
        Inl (RequestFailed (StatusCode resp) (RespBody resp))
      else (case ReadErr resp of
              Some err \<Rightarrow> Inl (IoError err)
            | None \<Rightarrow> prettyPrintJSON ext (RespBody resp)))"

definition RestCall :: "extern \<Rightarrow> environ \<Rightarrow> state \<Rightarrow> OacClient \<Rightarrow> string \<Rightarrow> string \<Rightarrow> string \<Rightarrow> (error + string) \<times> state \<times> OacClient" where
  "RestCall ext env s c method path bodyFile =
     (case GetToken ext env s c of
        (Inl err, s1, c1) \<Rightarrow> (Inl err, s1, c1)
      | (Inr token, s1, c1) \<Rightarrow>
          (case resolveBody ext bodyFile of
             Inl err \<Rightarrow> (Inl err, s1, c1)
           | Inr bodyBytes \<Rightarrow>
               (case NewRequest ext (ToUpper method)
                       (TrimRight (OAC_INSTANCE env) ''/'' @ ''/'' @ TrimLeft path ''/'') bodyBytes of
                  Inl err \<Rightarrow> (Inl err, s1, c1)
                | Inr req0 \<Rightarrow>
                    (let req = Header_Set (Header_Set req0 ''Authorization'' (''Bearer '' @ token))
                                 ''Content-Type'' ''application/json''
                     in case Do ext s1 req of
                          (Inl err, s2, req2) \<Rightarrow> (Inl (HttpError err), s2, c1)
                        | (Inr resp, s2, req2) \<Rightarrow>
                            (if StatusCode resp = 401 then
                               (case GetToken ext env s2 (c1\<lparr>AccessToken := []\<rparr>) of
                                  (Inl err, s3, c3) \<Rightarrow> (Inl err, s3, c3)
                                | (Inr token2, s3, c3) \<Rightarrow>
                                    (case Do ext s3 (Header_Set req2 ''Authorization''
                                                       (''Bearer '' @ token2)) of
                                       (Inl err, s4, req4) \<Rightarrow> (Inl (HttpError err), s4, c3)
                                     | (Inr resp2, s4, req4) \<Rightarrow> (respond ext resp2, s4, c3)))
                             else (respond ext resp, s2, c1))))))"

subsection \<open>Repeated calls, and concrete scenarios\<close>

text \<open>\<open>GetTokens n\<close> calls GetToken \<open>n\<close> times in a row and collects what the calls return.\<close>

fun GetTokens :: "nat \<Rightarrow> extern \<Rightarrow> environ \<Rightarrow> state \<Rightarrow> OacClient \<Rightarrow> (error + string) list \<times> state \<times> OacClient" where
  "GetTokens 0 ext env s c = ([], s, c)"
| "GetTokens (Suc n) ext env s c =
     (case GetToken ext env s c of
        (r, s1, c1) \<Rightarrow> (case GetTokens n ext env s1 c1 of (rs, s2, c2) \<Rightarrow> (r # rs, s2, c2)))"

text \<open>
  A world for examples: the clock starts 1000 seconds after the epoch and advances a
  nanosecond per reading, the identity provider answers every exchange with \<open>r\<close>, the
  server answers every request with status \<open>code\<close> and the body \<open>denied\<close>; no body file
  exists, every request can be built, and the JSON library rejects every body.
\<close>

definition world :: "(string + oauth2_Token) \<Rightarrow> int \<Rightarrow> extern" where
  "world r code =
     \<lparr>clock = (\<lambda>n. 1000 * Second + int n),
      idp = (\<lambda>n x. r),
      server = (\<lambda>n req. Inr \<lparr>StatusCode = code, RespBody = ''denied'', ReadErr = None\<rparr>),
      Stat = (\<lambda>f. False),
      ReadFile = (\<lambda>f. Inl ''no such file''),
      WriteFails = False,
      NewRequestErr = (\<lambda>m u. None),
      Unmarshal_map = (\<lambda>d. Inl ''unexpected end of JSON input''),
      Unmarshal_slice = (\<lambda>d. Inl ''unexpected end of JSON input''),
      MarshalIndent = (\<lambda>v. [])\<rparr>"

definition creds :: "string \<Rightarrow> environ" where
  \<comment> \<open>a configuration complete for the client-credentials grant; \<open>g\<close> is the grant type\<close>
  "creds g =
     \<lparr>IDCS_TOKEN_URL = ''https://idcs/oauth2/v1/token/'', IDCS_OAC_CLIENT_ID = ''id'',
      IDCS_OAC_CLIENT_SECRET = ''secret'', IDCS_OAC_SCOPE = ''scope'', OAC_USERNAME = [],
      OAC_PASSWORD = [], IDCS_GRANT_TYPE = g, OAC_INSTANCE = ''https://oac/''\<rparr>"

definition unset :: environ where
  \<comment> \<open>no variable is set\<close>
  "unset =
     \<lparr>IDCS_TOKEN_URL = [], IDCS_OAC_CLIENT_ID = [], IDCS_OAC_CLIENT_SECRET = [],
      IDCS_OAC_SCOPE = [], OAC_USERNAME = [], OAC_PASSWORD = [], IDCS_GRANT_TYPE = [],
      OAC_INSTANCE = []\<rparr>"

definition start :: state where
  "start = \<lparr>ticks = 0, tokenFile = Absent, trace = []\<rparr>"

definition blank :: OacClient where
  \<comment> \<open>\<^verbatim>\<open>&OacClient{}\<close>\<close>
  "blank = \<lparr>AccessToken = [], TokenExpiry = zeroTime\<rparr>"

definition holding :: "string \<Rightarrow> int \<Rightarrow> OacClient" where
  \<comment> \<open>a client holding a token that expires \<open>sec\<close> seconds after the epoch\<close>
  "holding tok sec = \<lparr>AccessToken = tok, TokenExpiry = sec * Second\<rparr>"

definition issued :: "string \<Rightarrow> int \<Rightarrow> oauth2_Token" where
  \<comment> \<open>a provider token that expires \<open>sec\<close> seconds after the epoch\<close>
  "issued tok sec = \<lparr>tok_AccessToken = tok, tok_Expiry = sec * Second\<rparr>"

subsection \<open>Notions the properties are stated with\<close>

text \<open>The errors of token acquisition: those obtainToken returns.\<close>

fun is_auth_error :: "error \<Rightarrow> bool" where
  "is_auth_error MissingEnv = True"
| "is_auth_error MissingUserPass = True"
| "is_auth_error (UnsupportedGrant g) = True"
| "is_auth_error (FailedToObtain e) = True"
| "is_auth_error (RequestFailed code body) = False"
| "is_auth_error (OsError e) = False"
| "is_auth_error (HttpError e) = False"
| "is_auth_error (IoError e) = False"
| "is_auth_error (JsonError e) = False"


text \<open>
  The missing set the specification speaks of: the names of the four variables every
  grant needs that are empty.
\<close>

definition missingRequired :: "environ \<Rightarrow> string list" where
  "missingRequired env =
     map fst (filter (\<lambda>(name, v). v = [])
       [(''IDCS_OAC_CLIENT_ID'', IDCS_OAC_CLIENT_ID env),
        (''IDCS_OAC_CLIENT_SECRET'', IDCS_OAC_CLIENT_SECRET env),
        (''IDCS_OAC_SCOPE'', IDCS_OAC_SCOPE env),
        (''IDCS_GRANT_TYPE'', IDCS_GRANT_TYPE env)])"

section \<open>Properties\<close>

subsection \<open>How GetToken and obtainToken unfold\<close>

lemma GetToken_fast:
  "AccessToken c \<noteq> [] \<Longrightarrow> clock ext (ticks s) < TokenExpiry c \<Longrightarrow>
   GetToken ext env s c = (Inr (AccessToken c), s\<lparr>ticks := Suc (ticks s)\<rparr>, c)"
  by (simp add: GetToken_def time_Now_def Before_def)

lemma GetToken_empty:
  "AccessToken c = [] \<Longrightarrow>
   GetToken ext env s c =
     (case obtainToken ext env s c of
        (Some err, s1, c1) \<Rightarrow> (Inl err, s1, c1)
      | (None, s1, c1) \<Rightarrow> (Inr (AccessToken c1), s1, c1))"
  by (simp add: GetToken_def)

lemma GetToken_expired:
  "AccessToken c \<noteq> [] \<Longrightarrow> TokenExpiry c \<le> clock ext (ticks s) \<Longrightarrow>
   GetToken ext env s c =
     (case obtainToken ext env (s\<lparr>ticks := Suc (ticks s)\<rparr>) c of
        (Some err, s1, c1) \<Rightarrow> (Inl err, s1, c1)
      | (None, s1, c1) \<Rightarrow> (Inr (AccessToken c1), s1, c1))"
  by (simp add: GetToken_def time_Now_def Before_def)

lemma obtainToken_refused:
  "grantDispatch env = Inl err \<Longrightarrow> obtainToken ext env s c = (Some err, s, c)"
  by (simp add: obtainToken_def)

lemma obtainToken_failed:
  "grantDispatch env = Inr x \<Longrightarrow> idp ext (exchanges s) x = Inl m \<Longrightarrow>
   obtainToken ext env s c =
     (Some (FailedToObtain m), s\<lparr>trace := trace s @ [TokenExchange x]\<rparr>, c)"
  by (simp add: obtainToken_def Token_def)

lemma obtainToken_ok:
  "grantDispatch env = Inr x \<Longrightarrow> idp ext (exchanges s) x = Inr token \<Longrightarrow>
   \<exists>s'. obtainToken ext env s c =
          (None, s',
           c\<lparr>AccessToken := tok_AccessToken token,
             TokenExpiry := (if IsZero (tok_Expiry token) then clock ext (ticks s) + (Hour - Minute)
                             else tok_Expiry token - Minute)\<rparr>) \<and>
        trace s' = trace s @ [TokenExchange x] \<and>
        ticks s' = (if IsZero (tok_Expiry token) then Suc (ticks s) else ticks s)"
  by (simp add: obtainToken_def Token_def time_Now_def Add_def saveTokenToFile_def Let_def)

subsection \<open>Token Manager\<close>

text \<open>
  C7. For a client that holds a non-empty token, \<open>n\<close> calls of GetToken in a row, each
  made while the clock reads a time strictly before the expiry, all return that same
  token; the client is unchanged, and so is the state but for the \<open>n\<close> clock readings:
  the log of network calls gets no entry, so no exchange with the provider takes place.
\<close>

theorem GetToken_idempotent:
  assumes "AccessToken c \<noteq> []"
    and "\<forall>i<n. clock ext (ticks s + i) < TokenExpiry c"
  shows "GetTokens n ext env s c =
           (replicate n (Inr (AccessToken c)), s\<lparr>ticks := ticks s + n\<rparr>, c)"
  using assms(2)
proof (induction n arbitrary: s)
  case 0
  show ?case by simp
next
  case (Suc n)
  from Suc.prems have now: "clock ext (ticks s) < TokenExpiry c"
    by (metis add.right_neutral zero_less_Suc)
  have later: "\<forall>i<n. clock ext (ticks (s\<lparr>ticks := Suc (ticks s)\<rparr>) + i) < TokenExpiry c"
  proof (intro allI impI)
    fix i assume "i < n"
    then have "Suc i < Suc n" by simp
    with Suc.prems have "clock ext (ticks s + Suc i) < TokenExpiry c" by blast
    then show "clock ext (ticks (s\<lparr>ticks := Suc (ticks s)\<rparr>) + i) < TokenExpiry c" by simp
  qed
  show ?case
    by (simp add: GetToken_fast [OF assms(1) now] Suc.IH [OF later])
qed

text \<open>
  Three calls on a token that expires 1000 seconds from now, with no variable set and a
  provider that is down: neither is needed.
\<close>

theorem GetToken_idempotent_witness:
  "GetTokens 3 (world (Inl ''connection refused'') 200) unset start (holding ''cached'' 2000) =
     ([Inr ''cached'', Inr ''cached'', Inr ''cached''], start\<lparr>ticks := 3\<rparr>,
      holding ''cached'' 2000)"
  using GetToken_idempotent [of "holding ''cached'' 2000" 3
      "world (Inl ''connection refused'') 200" start unset]
  by (simp add: holding_def world_def start_def Second_def numeral_3_eq_3)

lemma GetToken_fresh:
  assumes "AccessToken c = [] \<or> TokenExpiry c \<le> clock ext (ticks s)"
    and "grantDispatch env = Inr x"
    and "idp ext (exchanges s) x = Inr token"
  shows "\<exists>s' c'. GetToken ext env s c = (Inr (tok_AccessToken token), s', c') \<and>
           AccessToken c' = tok_AccessToken token \<and>
           (\<not> IsZero (tok_Expiry token) \<longrightarrow> TokenExpiry c' = tok_Expiry token - Minute)"
proof (cases "AccessToken c = []")
  case True
  from obtainToken_ok [OF assms(2) assms(3), of c] True show ?thesis
    by (auto simp: GetToken_empty)
next
  case False
  with assms(1) have late: "TokenExpiry c \<le> clock ext (ticks s)" by simp
  have "idp ext (exchanges (s\<lparr>ticks := Suc (ticks s)\<rparr>)) x = Inr token"
    using assms(3) by (simp add: exchanges_def)
  from obtainToken_ok [OF assms(2) this, of c] show ?thesis
    by (auto simp: GetToken_expired [OF False late])
qed

lemma GetToken_exchange_failed:
  assumes "AccessToken c = [] \<or> TokenExpiry c \<le> clock ext (ticks s)"
    and "grantDispatch env = Inr x"
    and "idp ext (exchanges s) x = Inl m"
  shows "\<exists>s'. GetToken ext env s c = (Inl (FailedToObtain m), s', c)"
proof (cases "AccessToken c = []")
  case True
  with obtainToken_failed [OF assms(2) assms(3), of c] show ?thesis
    by (simp add: GetToken_empty)
next
  case False
  with assms(1) have late: "TokenExpiry c \<le> clock ext (ticks s)" by simp
  have "idp ext (exchanges (s\<lparr>ticks := Suc (ticks s)\<rparr>)) x = Inl m"
    using assms(3) by (simp add: exchanges_def)
  from obtainToken_failed [OF assms(2) this, of c] show ?thesis
    by (simp add: GetToken_expired [OF False late])
qed

text \<open>
  C10, as amended. Let the client's token be empty or its expiry not after the clock's
  reading, let the configuration select an exchange, and let the provider's response to
  it decode to the token \<open>resp\<close>. If the access token of \<open>resp\<close> is not empty, GetToken
  returns it with no error and the client holds it, with the expiry of \<open>resp\<close> less one
  minute where \<open>resp\<close> has an expiry, whether or not that is already past: the validity
  test is not made again. If the access token of \<open>resp\<close> is empty, the oauth2 library
  reports an error, and GetToken fails with the error of the exchange, the client
  unchanged.
\<close>

theorem GetToken_fresh_unchecked:
  assumes "AccessToken c = [] \<or> TokenExpiry c \<le> clock ext (ticks s)"
    and "grantDispatch env = Inr x"
    and "idp ext (exchanges s) x = RetrieveToken resp"
  shows "(tok_AccessToken resp \<noteq> [] \<longrightarrow>
            (\<exists>s' c'. GetToken ext env s c = (Inr (tok_AccessToken resp), s', c') \<and>
               AccessToken c' = tok_AccessToken resp \<and>
               (\<not> IsZero (tok_Expiry resp) \<longrightarrow> TokenExpiry c' = tok_Expiry resp - Minute))) \<and>
         (tok_AccessToken resp = [] \<longrightarrow>
            (\<exists>s'. GetToken ext env s c =
               (Inl (FailedToObtain ''oauth2: server response missing access_token''), s', c)))"
proof (intro conjI impI)
  assume "tok_AccessToken resp \<noteq> []"
  with assms(3) have "idp ext (exchanges s) x = Inr resp"
    by (simp add: RetrieveToken_def)
  from GetToken_fresh [OF assms(1,2) this]
  show "\<exists>s' c'. GetToken ext env s c = (Inr (tok_AccessToken resp), s', c') \<and>
               AccessToken c' = tok_AccessToken resp \<and>
               (\<not> IsZero (tok_Expiry resp) \<longrightarrow> TokenExpiry c' = tok_Expiry resp - Minute)" .
next
  assume "tok_AccessToken resp = []"
  with assms(3) have
    "idp ext (exchanges s) x = Inl ''oauth2: server response missing access_token''"
    by (simp add: RetrieveToken_def)
  from GetToken_exchange_failed [OF assms(1,2) this]
  show "\<exists>s'. GetToken ext env s c =
      (Inl (FailedToObtain ''oauth2: server response missing access_token''), s', c)" .
qed

text \<open>
  The provider issues the token \<^verbatim>\<open>brief\<close>, which expires 30 seconds from now: the call
  returns it, and the expiry stored is 30 seconds in the past.
\<close>

theorem GetToken_fresh_unchecked_witness:
  "fst (GetToken (world (RetrieveToken (issued ''brief'' 1030)) 200) (creds ''client_credentials'')
      start blank) = Inr ''brief'' \<and>
   snd (snd (GetToken (world (RetrieveToken (issued ''brief'' 1030)) 200)
      (creds ''client_credentials'') start blank)) = holding ''brief'' 970 \<and>
   TokenExpiry (holding ''brief'' 970) <
     clock (world (RetrieveToken (issued ''brief'' 1030)) 200) 0"
proof -
  have "grantDispatch (creds ''client_credentials'') =
      Inr (ClientCredentials \<lparr>ClientID = ''id'', ClientSecret = ''secret'',
         TokenURL = ''https://idcs/oauth2/v1/token'', Scopes = [''scope'']\<rparr>)"
    by (simp add: grantDispatch_def creds_def TrimRight_def)
  from GetToken_fresh_unchecked [of blank "world (RetrieveToken (issued ''brief'' 1030)) 200"
      start "creds ''client_credentials''" _ "issued ''brief'' 1030", OF _ this]
  show ?thesis
    by (auto simp: blank_def world_def start_def issued_def holding_def IsZero_def
        zeroTime_def Second_def Minute_def)
qed

text \<open>
  C10 as stated fails in its first case: a provider response with an empty access token
  is an error of the oauth2 library, and GetToken returns the error of the exchange, not
  the empty token.
\<close>

theorem GetToken_empty_token_counterexample:
  "RetrieveToken (issued [] 5000) = Inl ''oauth2: server response missing access_token'' \<and>
   fst (GetToken (world (RetrieveToken (issued [] 5000)) 200) (creds ''client_credentials'')
      start blank) = Inl (FailedToObtain ''oauth2: server response missing access_token'')"
  by (simp add: RetrieveToken_def GetToken_def obtainToken_def grantDispatch_def Token_def
      world_def creds_def start_def blank_def issued_def exchanges_def)

text \<open>
  C1, as amended. A call of GetToken that returns a token is of one of two kinds. Either
  it made no network call: then the client held a non-empty token, the clock read a time
  strictly before its expiry, and that token is returned, the client unchanged. Or the
  client's token was empty or its expiry was not after the clock's reading: then exactly
  one exchange with the provider was made, it succeeded, and what is returned and now
  held is the access token of the provider's answer. So a token whose expiry has passed
  is never returned without an exchange first. (What the exchange brings is not tested:
  see C10.)
\<close>

theorem GetToken_valid_or_exchanged:
  assumes "GetToken ext env s c = (Inr tok, s', c')"
  shows "(AccessToken c \<noteq> [] \<and> clock ext (ticks s) < TokenExpiry c \<and>
            tok = AccessToken c \<and> c' = c \<and> trace s' = trace s)
       \<or> ((AccessToken c = [] \<or> TokenExpiry c \<le> clock ext (ticks s)) \<and>
            (\<exists>x token. grantDispatch env = Inr x \<and> idp ext (exchanges s) x = Inr token \<and>
               trace s' = trace s @ [TokenExchange x] \<and>
               tok = tok_AccessToken token \<and> AccessToken c' = tok))"
proof (cases "AccessToken c \<noteq> [] \<and> clock ext (ticks s) < TokenExpiry c")
  case True
  with assms show ?thesis
    by (auto simp: GetToken_fast)
next
  case False
  define s0 where "s0 = (if AccessToken c = [] then s else s\<lparr>ticks := Suc (ticks s)\<rparr>)"
  have same: "exchanges s0 = exchanges s" "trace s0 = trace s"
    by (simp_all add: s0_def exchanges_def)
  have unfold: "GetToken ext env s c =
     (case obtainToken ext env s0 c of
        (Some err, s1, c1) \<Rightarrow> (Inl err, s1, c1)
      | (None, s1, c1) \<Rightarrow> (Inr (AccessToken c1), s1, c1))"
    using False by (cases "AccessToken c = []") (simp_all add: s0_def GetToken_empty GetToken_expired)
  show ?thesis
  proof (cases "grantDispatch env")
    case (Inl err)
    with assms unfold show ?thesis
      by (simp add: obtainToken_refused)
  next
    case (Inr x)
    show ?thesis
    proof (cases "idp ext (exchanges s0) x")
      case (Inl m)
      with assms unfold Inr show ?thesis
        by (simp add: obtainToken_failed)
    next
      case tok: (Inr token)
      from obtainToken_ok [OF Inr tok, of c] assms unfold False Inr tok same show ?thesis
        by auto
    qed
  qed
qed

text \<open>A token that expired 100 seconds ago: one exchange, and the new token is returned.\<close>

theorem GetToken_valid_or_exchanged_witness:
  "trace (fst (snd (GetToken (world (Inr (issued ''new'' 5000)) 200) (creds ''client_credentials'')
       start (holding ''old'' 900)))) =
     [TokenExchange (ClientCredentials \<lparr>ClientID = ''id'', ClientSecret = ''secret'',
         TokenURL = ''https://idcs/oauth2/v1/token'', Scopes = [''scope'']\<rparr>)] \<and>
   fst (GetToken (world (Inr (issued ''new'' 5000)) 200) (creds ''client_credentials'')
       start (holding ''old'' 900)) = Inr ''new''"
proof -
  let ?g = "GetToken (world (Inr (issued ''new'' 5000)) 200) (creds ''client_credentials'')
       start (holding ''old'' 900)"
  have r: "fst ?g = Inr ''new''"
    by (simp add: GetToken_def obtainToken_def grantDispatch_def Token_def time_Now_def
        Before_def world_def creds_def start_def holding_def issued_def IsZero_def zeroTime_def
        Second_def Let_def)
  then have "?g = (Inr ''new'', fst (snd ?g), snd (snd ?g))"
    by (metis prod.collapse)
  from GetToken_valid_or_exchanged [OF this] r show ?thesis
    by (auto simp: world_def start_def holding_def Second_def grantDispatch_def creds_def
        TrimRight_def)
qed

text \<open>
  C1 as stated fails: the provider issues a token that expires 30 seconds from now, the
  client stores the expiry a minute earlier, and GetToken returns the token although
  the record it now holds is not valid at the next reading of the clock, nor at any later one.
\<close>

theorem GetToken_expired_fresh_counterexample:
  "fst (GetToken (world (Inr (issued ''short'' 1030)) 200) (creds ''client_credentials'') start
      blank) = Inr ''short'' \<and>
   snd (snd (GetToken (world (Inr (issued ''short'' 1030)) 200) (creds ''client_credentials'')
      start blank)) = holding ''short'' 970 \<and>
   \<not> (AccessToken (holding ''short'' 970) \<noteq> [] \<and>
      clock (world (Inr (issued ''short'' 1030)) 200)
        (ticks (fst (snd (GetToken (world (Inr (issued ''short'' 1030)) 200)
           (creds ''client_credentials'') start blank)))) < TokenExpiry (holding ''short'' 970))"
  by (simp add: GetToken_def obtainToken_def grantDispatch_def Token_def time_Now_def
      world_def creds_def start_def blank_def issued_def holding_def IsZero_def zeroTime_def
      Second_def Minute_def Add_def saveTokenToFile_def Let_def)

subsection \<open>Token Provider\<close>

text \<open>
  C3, as amended. obtainToken checks the configuration before it calls the oauth2
  library. If the client id, the client secret, the scope or the grant type is empty, it
  fails with the error whose message is the fixed text
  \<^verbatim>\<open>missing required environment variables\<close>. If these four are set, the grant type is
  \<^verbatim>\<open>resource_owner\<close> and the user name or the password is empty, it fails with the error
  for the password grant. If the four are set and the grant type is neither
  \<^verbatim>\<open>client_credentials\<close> nor \<^verbatim>\<open>resource_owner\<close>, it fails with the error that names
  the grant type. In each case state and client are returned as they were: the log of
  network calls has no new entry.
\<close>

theorem obtainToken_validates_first:
  "(IDCS_OAC_CLIENT_ID env = [] \<or> IDCS_OAC_CLIENT_SECRET env = [] \<or>
    IDCS_OAC_SCOPE env = [] \<or> IDCS_GRANT_TYPE env = [] \<longrightarrow>
      obtainToken ext env s c = (Some MissingEnv, s, c) \<and>
      Error MissingEnv = ''missing required environment variables'') \<and>
   (IDCS_OAC_CLIENT_ID env \<noteq> [] \<and> IDCS_OAC_CLIENT_SECRET env \<noteq> [] \<and>
    IDCS_OAC_SCOPE env \<noteq> [] \<and> IDCS_GRANT_TYPE env = ''resource_owner'' \<and>
    (OAC_USERNAME env = [] \<or> OAC_PASSWORD env = []) \<longrightarrow>
      obtainToken ext env s c = (Some MissingUserPass, s, c)) \<and>
   (IDCS_OAC_CLIENT_ID env \<noteq> [] \<and> IDCS_OAC_CLIENT_SECRET env \<noteq> [] \<and>
    IDCS_OAC_SCOPE env \<noteq> [] \<and> IDCS_GRANT_TYPE env \<noteq> [] \<and>
    IDCS_GRANT_TYPE env \<noteq> ''client_credentials'' \<and>
    IDCS_GRANT_TYPE env \<noteq> ''resource_owner'' \<longrightarrow>
      obtainToken ext env s c = (Some (UnsupportedGrant (IDCS_GRANT_TYPE env)), s, c) \<and>
      Error (UnsupportedGrant (IDCS_GRANT_TYPE env)) =
        ''unsupported grant type: '' @ IDCS_GRANT_TYPE env)"
proof (intro conjI impI)
  assume "IDCS_OAC_CLIENT_ID env = [] \<or> IDCS_OAC_CLIENT_SECRET env = [] \<or>
    IDCS_OAC_SCOPE env = [] \<or> IDCS_GRANT_TYPE env = []"
  then have "grantDispatch env = Inl MissingEnv"
    by (auto simp: grantDispatch_def)
  then show "obtainToken ext env s c = (Some MissingEnv, s, c)"
    by (rule obtainToken_refused)
next
  assume "IDCS_OAC_CLIENT_ID env \<noteq> [] \<and> IDCS_OAC_CLIENT_SECRET env \<noteq> [] \<and>
    IDCS_OAC_SCOPE env \<noteq> [] \<and> IDCS_GRANT_TYPE env = ''resource_owner'' \<and>
    (OAC_USERNAME env = [] \<or> OAC_PASSWORD env = [])"
  then have "grantDispatch env = Inl MissingUserPass"
    by (auto simp: grantDispatch_def)
  then show "obtainToken ext env s c = (Some MissingUserPass, s, c)"
    by (rule obtainToken_refused)
next
  assume "IDCS_OAC_CLIENT_ID env \<noteq> [] \<and> IDCS_OAC_CLIENT_SECRET env \<noteq> [] \<and>
    IDCS_OAC_SCOPE env \<noteq> [] \<and> IDCS_GRANT_TYPE env \<noteq> [] \<and>
    IDCS_GRANT_TYPE env \<noteq> ''client_credentials'' \<and>
    IDCS_GRANT_TYPE env \<noteq> ''resource_owner''"
  then have "grantDispatch env = Inl (UnsupportedGrant (IDCS_GRANT_TYPE env))"
    by (auto simp: grantDispatch_def)
  then show "obtainToken ext env s c = (Some (UnsupportedGrant (IDCS_GRANT_TYPE env)), s, c)"
    by (rule obtainToken_refused)
qed simp_all

text \<open>
  The three refusals: no grant type; the password grant with no user name; the grant type
  \<^verbatim>\<open>oops\<close>. The provider of this world would answer, and is not asked.
\<close>

theorem obtainToken_validates_first_witness:
  "obtainToken (world (Inr (issued ''new'' 5000)) 200) (creds []) start blank =
     (Some MissingEnv, start, blank) \<and>
   obtainToken (world (Inr (issued ''new'' 5000)) 200) (creds ''resource_owner'') start blank =
     (Some MissingUserPass, start, blank) \<and>
   obtainToken (world (Inr (issued ''new'' 5000)) 200) (creds ''oops'') start blank =
     (Some (UnsupportedGrant ''oops''), start, blank) \<and>
   Error (UnsupportedGrant ''oops'') = ''unsupported grant type: oops''"
  using obtainToken_validates_first [of "creds []" "world (Inr (issued ''new'' 5000)) 200" start blank]
    obtainToken_validates_first [of "creds ''resource_owner''"
      "world (Inr (issued ''new'' 5000)) 200" start blank]
    obtainToken_validates_first [of "creds ''oops''" "world (Inr (issued ''new'' 5000)) 200" start blank]
  by (simp add: creds_def)

text \<open>
  C3 as stated fails in one point: the error does not list what is missing. With only
  the grant type missing and with all four variables missing the error is the same, and
  its message names no variable.
\<close>

theorem obtainToken_missing_set_counterexample:
  "missingRequired (creds []) = [''IDCS_GRANT_TYPE''] \<and>
   missingRequired unset =
     [''IDCS_OAC_CLIENT_ID'', ''IDCS_OAC_CLIENT_SECRET'', ''IDCS_OAC_SCOPE'', ''IDCS_GRANT_TYPE''] \<and>
   fst (obtainToken (world (Inl ''connection refused'') 200) (creds []) start blank) =
     Some MissingEnv \<and>
   fst (obtainToken (world (Inl ''connection refused'') 200) unset start blank) =
     Some MissingEnv \<and>
   Error MissingEnv = ''missing required environment variables''"
  by (simp add: missingRequired_def creds_def unset_def obtainToken_def grantDispatch_def)

text \<open>
  C4. When the exchange succeeds, the expiry the client stores is the token's expiry less
  one minute if the token has one, and the clock's reading plus one hour less one minute
  if it has none (the zero time). Hence, if the token has an expiry and that is at most
  \<open>T\<close> seconds after \<open>now\<close>, the stored expiry is at most \<open>T - 60\<close> seconds after \<open>now\<close>.
\<close>

theorem obtainToken_expiry_margin:
  assumes "grantDispatch env = Inr x"
    and "idp ext (exchanges s) x = Inr token"
  shows "\<exists>s' c'. obtainToken ext env s c = (None, s', c') \<and>
           AccessToken c' = tok_AccessToken token \<and>
           (\<not> IsZero (tok_Expiry token) \<longrightarrow> TokenExpiry c' = tok_Expiry token - 60 * Second) \<and>
           (IsZero (tok_Expiry token) \<longrightarrow>
              TokenExpiry c' = clock ext (ticks s) + (3600 * Second - 60 * Second)) \<and>
           (\<forall>now T. \<not> IsZero (tok_Expiry token) \<and> tok_Expiry token \<le> now + T * Second \<longrightarrow>
              TokenExpiry c' - now \<le> (T - 60) * Second)"
  using obtainToken_ok [OF assms, of c]
  by (auto simp: Hour_def Minute_def algebra_simps)

text \<open>
  A token that expires an hour from now is stored with 3540 seconds to go; a token with
  no expiry is stored with 3540 seconds to go as well.
\<close>

theorem obtainToken_expiry_margin_witness:
  "TokenExpiry (snd (snd (obtainToken (world (Inr (issued ''new'' 4600)) 200)
      (creds ''client_credentials'') start blank))) = 4540 * Second \<and>
   TokenExpiry (snd (snd (obtainToken
      (world (Inr \<lparr>tok_AccessToken = ''new'', tok_Expiry = zeroTime\<rparr>) 200)
      (creds ''client_credentials'') start blank))) = 1000 * Second + 3540 * Second"
  using obtainToken_expiry_margin [of "creds ''client_credentials''"
      "ClientCredentials \<lparr>ClientID = ''id'', ClientSecret = ''secret'',
         TokenURL = ''https://idcs/oauth2/v1/token'', Scopes = [''scope'']\<rparr>"
      "world (Inr (issued ''new'' 4600)) 200" start "issued ''new'' 4600" blank]
    obtainToken_expiry_margin [of "creds ''client_credentials''"
      "ClientCredentials \<lparr>ClientID = ''id'', ClientSecret = ''secret'',
         TokenURL = ''https://idcs/oauth2/v1/token'', Scopes = [''scope'']\<rparr>"
      "world (Inr \<lparr>tok_AccessToken = ''new'', tok_Expiry = zeroTime\<rparr>) 200" start
      "\<lparr>tok_AccessToken = ''new'', tok_Expiry = zeroTime\<rparr>" blank]
  by (auto simp: world_def start_def creds_def issued_def grantDispatch_def
      TrimRight_def exchanges_def IsZero_def zeroTime_def Second_def)

subsection \<open>Trimming\<close>









subsection \<open>Executor: the response body\<close>



subsection \<open>Token Store\<close>

lemma float64_of_int_exact:
  assumes "\<bar>n\<bar> < 2 ^ 53"
  shows "float64_of_int n = of_int n"
proof -
  from assms have "bitlen \<bar>n\<bar> \<le> 53"
    by (simp add: bitlen_le_iff_power)
  then show ?thesis
    by (simp add: float64_of_int_def Let_def)
qed

lemma int64_of_int:
  assumes "- (2 ^ 63) \<le> n" and "n < 2 ^ 63"
  shows "int64 (of_int n) = n"
  using assms by (simp add: int64_def Let_def)

lemma Unix_truncates: "0 \<le> t - Unix t * Second \<and> t - Unix t * Second < Second"
proof -
  have "t - t div Second * Second = t mod Second"
    by (simp add: minus_div_mult_eq_mod)
  moreover have "0 < Second"
    by (simp add: Second_def)
  ultimately show ?thesis
    by (simp add: Unix_def)
qed

lemma load_after_save:
  assumes "\<not> WriteFails ext" and "\<bar>Unix (TokenExpiry c)\<bar> < 2 ^ 53"
  shows "fst (loadTokenFromFile ext (saveTokenToFile ext s c) c0) =
           c0\<lparr>AccessToken := (if Unix (TokenExpiry c) * Second < clock ext (ticks s) then []
                                else AccessToken c),
              TokenExpiry := Unix (TokenExpiry c) * Second\<rparr>"
proof -
  from assms(2) have "- (2 ^ 63) \<le> Unix (TokenExpiry c)" "Unix (TokenExpiry c) < 2 ^ 63"
    by auto
  then have "int64 (of_int (Unix (TokenExpiry c))) = Unix (TokenExpiry c)"
    by (rule int64_of_int)
  with assms show ?thesis
    by (simp add: loadTokenFromFile_def saveTokenToFile_def float64_of_int_exact
        time_Now_def After_def time_Unix_def Let_def)
qed

text \<open>
  C8, as amended. Let a client's record be saved (the write succeeding, the expiry within
  2^53 seconds of the epoch, where float64 holds every whole number) and then loaded. The
  record loaded has the expiry of the original cut down to whole seconds, less than a
  second earlier. If the clock at the load reads no later than this cut expiry, the
  access token loaded is the one saved; if it reads later, the access token loaded is
  empty, also when the original expiry has not passed yet.
\<close>

theorem save_load_roundtrip:
  assumes "\<not> WriteFails ext" and "\<bar>Unix (TokenExpiry c)\<bar> < 2 ^ 53"
  shows "TokenExpiry (fst (loadTokenFromFile ext (saveTokenToFile ext s c) c0)) =
           Unix (TokenExpiry c) * Second \<and>
         0 \<le> TokenExpiry c - Unix (TokenExpiry c) * Second \<and>
         TokenExpiry c - Unix (TokenExpiry c) * Second < Second \<and>
         (clock ext (ticks s) \<le> Unix (TokenExpiry c) * Second \<longrightarrow>
            AccessToken (fst (loadTokenFromFile ext (saveTokenToFile ext s c) c0)) = AccessToken c) \<and>
         (Unix (TokenExpiry c) * Second < clock ext (ticks s) \<longrightarrow>
            AccessToken (fst (loadTokenFromFile ext (saveTokenToFile ext s c) c0)) = [])"
  using Unix_truncates [of "TokenExpiry c"]
  by (simp add: load_after_save [OF assms])

text \<open>
  A token that expires 2000.5 seconds after the epoch, saved and loaded when the clock
  reads 1000 seconds: the token is back, with the expiry 2000 seconds.
\<close>

theorem save_load_roundtrip_witness:
  "fst (loadTokenFromFile (world (Inl []) 200)
     (saveTokenToFile (world (Inl []) 200) start
        \<lparr>AccessToken = ''cached'', TokenExpiry = 2000 * Second + 500000000\<rparr>) blank) =
   \<lparr>AccessToken = ''cached'', TokenExpiry = 2000 * Second\<rparr>"
proof -
  have u: "Unix 2000500000000 = 2000"
    by (simp add: Unix_def Second_def)
  show ?thesis
    using save_load_roundtrip [of "world (Inl []) 200"
        "\<lparr>AccessToken = ''cached'', TokenExpiry = 2000 * Second + 500000000\<rparr>" start blank]
    by (simp add: u world_def start_def blank_def Second_def)
qed

text \<open>
  C8 as stated fails: a token that expires 1000.5 seconds after the epoch is saved, and
  loaded when the clock reads 5 nanoseconds past 1000 seconds, before the expiry. The
  file holds 1000, the clock is past it, and the access token loaded is empty.
\<close>

theorem save_load_last_second_counterexample:
  "clock (world (Inl []) 200) (ticks (start\<lparr>ticks := 5\<rparr>)) <
     TokenExpiry \<lparr>AccessToken = ''cached'', TokenExpiry = 1000 * Second + 500000000\<rparr> \<and>
   AccessToken (fst (loadTokenFromFile (world (Inl []) 200)
     (saveTokenToFile (world (Inl []) 200) (start\<lparr>ticks := 5\<rparr>)
        \<lparr>AccessToken = ''cached'', TokenExpiry = 1000 * Second + 500000000\<rparr>) blank)) = []"
proof -
  have u: "Unix 1000500000000 = 1000"
    by (simp add: Unix_def Second_def)
  have f: "float64_of_int 1000 = 1000"
    using float64_of_int_exact [of 1000] by simp
  have i: "int64 1000 = 1000"
    using int64_of_int [of 1000] by simp
  show ?thesis
    by (simp add: loadTokenFromFile_def saveTokenToFile_def world_def start_def Second_def
        time_Now_def After_def time_Unix_def u f i Let_def)
qed


lemma loadTokenFromFile_miss:
  assumes "tokenFile s = Absent \<or> tokenFile s = Malformed \<or>
     (\<exists>data. tokenFile s = Decoded data \<and>
        ((\<forall>t. data ''access_token'' \<noteq> Some (JString t)) \<or>
         (\<forall>x. data ''expires_at'' \<noteq> Some (JNumber x))))"
  shows "loadTokenFromFile ext s c = (c, s)"
  using assms
  by (auto simp: loadTokenFromFile_def split: cache_file.splits option.splits json.splits)

lemma loadTokenFromFile_stale:
  assumes "tokenFile s = Decoded data" and "data ''access_token'' = Some (JString t)"
    and "data ''expires_at'' = Some (JNumber x)"
    and "time_Unix (int64 x) 0 < clock ext (ticks s)"
  shows "fst (loadTokenFromFile ext s c) =
           c\<lparr>AccessToken := [], TokenExpiry := time_Unix (int64 x) 0\<rparr>"
  using assms by (simp add: loadTokenFromFile_def time_Now_def After_def Let_def)

lemma obtainToken_WriteFails:
  "obtainToken (ext\<lparr>WriteFails := True\<rparr>) env s c =
     (case obtainToken (ext\<lparr>WriteFails := False\<rparr>) env s c of
        (r, s', c') \<Rightarrow> (r, s'\<lparr>tokenFile := tokenFile s\<rparr>, c'))"
  by (simp add: obtainToken_def Token_def time_Now_def saveTokenToFile_def Let_def
      split: sum.splits)

text \<open>
  C9. The store reports no error. NewOacClient always returns a client and no error.
  When the cache file is absent or is not a JSON object, or one of its two fields is
  missing or of the wrong type, the client returned is the blank one and nothing else
  happens. When the file decodes and the expiry it records is before the clock's reading,
  the client returned has an empty access token. And a write of the cache file that
  fails changes nothing in what GetToken returns or in the client it leaves: the only
  difference to a run where the write succeeds is the cache file, which stays as it was.
\<close>

theorem store_never_fails:
  "(\<exists>c' s'. NewOacClient ext s = (Inr c', s')) \<and>
   (tokenFile s = Absent \<or> tokenFile s = Malformed \<longrightarrow> NewOacClient ext s = (Inr blank, s)) \<and>
   (tokenFile s = Decoded data \<and>
      ((\<forall>t. data ''access_token'' \<noteq> Some (JString t)) \<or>
       (\<forall>x. data ''expires_at'' \<noteq> Some (JNumber x))) \<longrightarrow>
        NewOacClient ext s = (Inr blank, s)) \<and>
   (tokenFile s = Decoded data \<and> data ''access_token'' = Some (JString t) \<and>
      data ''expires_at'' = Some (JNumber x) \<and> time_Unix (int64 x) 0 < clock ext (ticks s) \<longrightarrow>
        (\<exists>s'. NewOacClient ext s =
           (Inr \<lparr>AccessToken = [], TokenExpiry = time_Unix (int64 x) 0\<rparr>, s'))) \<and>
   GetToken (ext\<lparr>WriteFails := True\<rparr>) env s c =
     (case GetToken (ext\<lparr>WriteFails := False\<rparr>) env s c of
        (r, s', c') \<Rightarrow> (r, s'\<lparr>tokenFile := tokenFile s\<rparr>, c'))"
proof (intro conjI impI)
  show "\<exists>c' s'. NewOacClient ext s = (Inr c', s')"
    by (simp add: NewOacClient_def split: prod.splits)
next
  assume "tokenFile s = Absent \<or> tokenFile s = Malformed"
  then have "loadTokenFromFile ext s \<lparr>AccessToken = [], TokenExpiry = zeroTime\<rparr> =
      (\<lparr>AccessToken = [], TokenExpiry = zeroTime\<rparr>, s)"
    by (intro loadTokenFromFile_miss) blast
  then show "NewOacClient ext s = (Inr blank, s)"
    by (simp add: NewOacClient_def blank_def)
next
  assume "tokenFile s = Decoded data \<and>
      ((\<forall>t. data ''access_token'' \<noteq> Some (JString t)) \<or>
       (\<forall>x. data ''expires_at'' \<noteq> Some (JNumber x)))"
  then have "loadTokenFromFile ext s \<lparr>AccessToken = [], TokenExpiry = zeroTime\<rparr> =
      (\<lparr>AccessToken = [], TokenExpiry = zeroTime\<rparr>, s)"
    by (intro loadTokenFromFile_miss) blast
  then show "NewOacClient ext s = (Inr blank, s)"
    by (simp add: NewOacClient_def blank_def)
next
  assume a: "tokenFile s = Decoded data \<and> data ''access_token'' = Some (JString t) \<and>
      data ''expires_at'' = Some (JNumber x) \<and> time_Unix (int64 x) 0 < clock ext (ticks s)"
  then have "fst (loadTokenFromFile ext s \<lparr>AccessToken = [], TokenExpiry = zeroTime\<rparr>) =
      \<lparr>AccessToken = [], TokenExpiry = time_Unix (int64 x) 0\<rparr>"
    by (simp add: loadTokenFromFile_stale [of s data t x])
  then show "\<exists>s'. NewOacClient ext s =
      (Inr \<lparr>AccessToken = [], TokenExpiry = time_Unix (int64 x) 0\<rparr>, s')"
    by (auto simp: NewOacClient_def split: prod.splits)
next
  show "GetToken (ext\<lparr>WriteFails := True\<rparr>) env s c =
     (case GetToken (ext\<lparr>WriteFails := False\<rparr>) env s c of
        (r, s', c') \<Rightarrow> (r, s'\<lparr>tokenFile := tokenFile s\<rparr>, c'))"
    by (simp add: GetToken_def obtainToken_WriteFails time_Now_def Let_def
        split: prod.splits option.splits)
qed

text \<open>
  No file; a file whose expiry is a string; a file whose token expired 100 seconds ago;
  and a token obtained while the cache cannot be written, returned all the same.
\<close>

theorem store_never_fails_witness:
  "NewOacClient (world (Inl []) 200) start = (Inr blank, start) \<and>
   NewOacClient (world (Inl []) 200)
     (start\<lparr>tokenFile := Decoded [''access_token'' \<mapsto> JString ''cached'',
                                  ''expires_at'' \<mapsto> JString ''tomorrow'']\<rparr>) =
     (Inr blank, start\<lparr>tokenFile := Decoded [''access_token'' \<mapsto> JString ''cached'',
                                  ''expires_at'' \<mapsto> JString ''tomorrow'']\<rparr>) \<and>
   fst (NewOacClient (world (Inl []) 200)
     (start\<lparr>tokenFile := Decoded [''access_token'' \<mapsto> JString ''cached'',
                                  ''expires_at'' \<mapsto> JNumber 900]\<rparr>)) =
     Inr \<lparr>AccessToken = [], TokenExpiry = 900 * Second\<rparr> \<and>
   fst (GetToken ((world (Inr (issued ''new'' 5000)) 200)\<lparr>WriteFails := True\<rparr>)
          (creds ''client_credentials'') start blank) = Inr ''new'' \<and>
   tokenFile (fst (snd (GetToken ((world (Inr (issued ''new'' 5000)) 200)\<lparr>WriteFails := True\<rparr>)
          (creds ''client_credentials'') start blank))) = Absent"
proof -
  have i: "int64 900 = 900"
    using int64_of_int [of 900] by simp
  have g: "fst (GetToken ((world (Inr (issued ''new'' 5000)) 200)\<lparr>WriteFails := False\<rparr>)
          (creds ''client_credentials'') start blank) = Inr ''new''"
    by (simp add: GetToken_def obtainToken_def grantDispatch_def Token_def time_Now_def
        world_def creds_def start_def blank_def issued_def IsZero_def zeroTime_def
        Second_def Let_def)
  show ?thesis
    using store_never_fails [of "world (Inl []) 200" start Map.empty undefined undefined unset blank]
      store_never_fails [of "world (Inl []) 200"
        "start\<lparr>tokenFile := Decoded [''access_token'' \<mapsto> JString ''cached'',
                                  ''expires_at'' \<mapsto> JString ''tomorrow'']\<rparr>"
        "[''access_token'' \<mapsto> JString ''cached'', ''expires_at'' \<mapsto> JString ''tomorrow'']"
        undefined undefined unset blank]
      store_never_fails [of "world (Inl []) 200"
        "start\<lparr>tokenFile := Decoded [''access_token'' \<mapsto> JString ''cached'',
                                  ''expires_at'' \<mapsto> JNumber 900]\<rparr>"
        "[''access_token'' \<mapsto> JString ''cached'', ''expires_at'' \<mapsto> JNumber 900]"
        "''cached''" 900 unset blank]
      store_never_fails [of "world (Inr (issued ''new'' 5000)) 200" start Map.empty undefined
        undefined "creds ''client_credentials''" blank]
      g
    by (auto simp: i start_def world_def time_Unix_def Second_def split: prod.splits)
qed

subsection \<open>Executor: the paths through RestCall\<close>

lemma grantDispatch_auth: "grantDispatch env = Inl err \<Longrightarrow> is_auth_error err"
  by (auto simp: grantDispatch_def Let_def split: if_splits)

lemma GetToken_cases:
  assumes "GetToken ext env s c = (r, s', c')"
  obtains
    (cached) "r = Inr (AccessToken c)" "AccessToken c \<noteq> []" "trace s' = trace s" "c' = c"
  | (refused) err where "r = Inl err" "is_auth_error err" "trace s' = trace s" "c' = c"
      "grantDispatch env = Inl err"
  | (failed) m x where "r = Inl (FailedToObtain m)" "trace s' = trace s @ [TokenExchange x]" "c' = c"
      "grantDispatch env = Inr x" "idp ext (exchanges s) x = Inl m"
  | (fresh) x token where "r = Inr (tok_AccessToken token)"
      "trace s' = trace s @ [TokenExchange x]" "idp ext (exchanges s) x = Inr token"
      "AccessToken c' = tok_AccessToken token" "grantDispatch env = Inr x"
proof (cases "AccessToken c \<noteq> [] \<and> clock ext (ticks s) < TokenExpiry c")
  case True
  then have "GetToken ext env s c = (Inr (AccessToken c), s\<lparr>ticks := Suc (ticks s)\<rparr>, c)"
    by (simp add: GetToken_fast)
  with assms have "r = Inr (AccessToken c)" "trace s' = trace s" "c' = c"
    by auto
  with True show ?thesis
    by (intro cached) simp_all
next
  case False
  define s0 where "s0 = (if AccessToken c = [] then s else s\<lparr>ticks := Suc (ticks s)\<rparr>)"
  have same: "exchanges s0 = exchanges s" "trace s0 = trace s"
    by (simp_all add: s0_def exchanges_def)
  have "GetToken ext env s c =
     (case obtainToken ext env s0 c of
        (Some err, s1, c1) \<Rightarrow> (Inl err, s1, c1)
      | (None, s1, c1) \<Rightarrow> (Inr (AccessToken c1), s1, c1))"
    using False by (cases "AccessToken c = []") (simp_all add: s0_def GetToken_empty GetToken_expired)
  with assms have unfold: "(r, s', c') =
     (case obtainToken ext env s0 c of
        (Some err, s1, c1) \<Rightarrow> (Inl err, s1, c1)
      | (None, s1, c1) \<Rightarrow> (Inr (AccessToken c1), s1, c1))"
    by simp
  show ?thesis
  proof (cases "grantDispatch env")
    case (Inl err)
    then have "obtainToken ext env s0 c = (Some err, s0, c)"
      by (rule obtainToken_refused)
    with unfold have "r = Inl err" "s' = s0" "c' = c"
      by simp_all
    with same grantDispatch_auth [OF Inl] Inl show ?thesis
      by (intro refused [of err]) simp_all
  next
    case (Inr x)
    show ?thesis
    proof (cases "idp ext (exchanges s0) x")
      case (Inl m)
      with Inr have "obtainToken ext env s0 c =
          (Some (FailedToObtain m), s0\<lparr>trace := trace s0 @ [TokenExchange x]\<rparr>, c)"
        by (rule obtainToken_failed)
      with unfold have "r = Inl (FailedToObtain m)"
        "s' = s0\<lparr>trace := trace s0 @ [TokenExchange x]\<rparr>" "c' = c"
        by simp_all
      with same Inr Inl show ?thesis
        by (intro failed [of m x]) simp_all
    next
      case tok: (Inr token)
      from obtainToken_ok [OF Inr tok, of c] obtain s1 c1 where
        o: "obtainToken ext env s0 c = (None, s1, c1)"
        "AccessToken c1 = tok_AccessToken token" "trace s1 = trace s0 @ [TokenExchange x]"
        by auto
      with unfold have "r = Inr (tok_AccessToken token)" "s' = s1" "c' = c1"
        by simp_all
      with o same tok Inr show ?thesis
        by (intro fresh [of token x]) simp_all
    qed
  qed
qed

lemma attempts_append:
  "trace s' = trace s @ es \<Longrightarrow> attempts s' = attempts s + length (filter is_http es)"
  by (simp add: attempts_def)

lemma exchanges_append:
  "trace s' = trace s @ es \<Longrightarrow> exchanges s' = exchanges s + length (filter is_exchange es)"
  by (simp add: exchanges_def)

lemma respond_401:
  "StatusCode resp = 401 \<Longrightarrow> respond ext resp = Inl (RequestFailed 401 (RespBody resp))"
  by (simp add: respond_def)


lemma GetToken_trace:
  assumes "GetToken ext env s c = (r, s', c')"
  obtains pre where "trace s' = trace s @ pre" "filter is_http pre = []"
    "\<And>err. r = Inl err \<Longrightarrow> is_auth_error err"
  using assms
proof (cases rule: GetToken_cases)
  case cached
  then show ?thesis by (intro that [of "[]"]) simp_all
next
  case (refused err)
  then show ?thesis by (intro that [of "[]"]) simp_all
next
  case (failed m x)
  then show ?thesis by (intro that [of "[TokenExchange x]"]) simp_all
next
  case (fresh x token)
  then show ?thesis by (intro that [of "[TokenExchange x]"]) simp_all
qed

lemma RestCall_cases:
  assumes "RestCall ext env s c method path bodyFile = (r, s', c')"
  obtains
    (unsent) err pre where "r = Inl err" "\<forall>code body. err \<noteq> RequestFailed code body"
      "trace s' = trace s @ pre" "filter is_http pre = []"
      "fst (GetToken ext env s c) = Inl err \<or> resolveBody ext bodyFile = Inl err \<or>
       (\<exists>b. resolveBody ext bodyFile = Inr b \<and>
          NewRequest ext (ToUpper method)
            (TrimRight (OAC_INSTANCE env) ''/'' @ ''/'' @ TrimLeft path ''/'') b = Inl err)"
  | (transport) pre req m where "r = Inl (HttpError m)"
      "trace s' = trace s @ pre @ [HttpDo req]" "filter is_http pre = []"
      "server ext (attempts s) req = Inl m"
  | (answered) pre req resp where "r = respond ext resp"
      "trace s' = trace s @ pre @ [HttpDo req]" "filter is_http pre = []"
      "server ext (attempts s) req = Inr resp" "StatusCode resp \<noteq> 401"
  | (stopped) pre req resp mid err where "r = Inl err" "is_auth_error err"
      "AccessToken c' = []"
      "trace s' = trace s @ pre @ HttpDo req # mid" "filter is_http pre = []"
      "filter is_http mid = []"
      "server ext (attempts s) req = Inr resp" "StatusCode resp = 401"
      "trace (fst (snd (GetToken ext env s c))) = trace s @ pre"
      "(grantDispatch env = Inl err \<and> mid = []) \<or>
       (\<exists>x m. grantDispatch env = Inr x \<and>
          idp ext (exchanges s + length (filter is_exchange pre)) x = Inl m \<and>
          err = FailedToObtain m \<and> mid = [TokenExchange x])"
  | (retried) pre req resp x token req2 where
      "r = (case server ext (Suc (attempts s)) req2 of
              Inl m \<Rightarrow> Inl (HttpError m) | Inr resp2 \<Rightarrow> respond ext resp2)"
      "trace s' = trace s @ pre @ [HttpDo req, TokenExchange x, HttpDo req2]"
      "filter is_http pre = []"
      "server ext (attempts s) req = Inr resp" "StatusCode resp = 401"
      "idp ext (exchanges s + length (filter is_exchange pre)) x = Inr token"
      "AccessToken c' = tok_AccessToken token"
      "Method req2 = Method req" "URL req2 = URL req" "ContentLength req2 = ContentLength req"
      "Header req2 = (Header req)(''Authorization'' \<mapsto> ''Bearer '' @ tok_AccessToken token)"
      "Body req2 = []"
      "trace (fst (snd (GetToken ext env s c))) = trace s @ pre"
      "grantDispatch env = Inr x"
proof -
  obtain r1 s1 c1 where g1: "GetToken ext env s c = (r1, s1, c1)"
    by (metis prod_cases3)
  from GetToken_trace [OF g1] obtain pre where
    pre: "trace s1 = trace s @ pre" "filter is_http pre = []"
    and auth1: "\<And>err. r1 = Inl err \<Longrightarrow> is_auth_error err"
    by blast
  from pre have a1: "attempts s1 = attempts s"
    by (simp add: attempts_append)
  from pre have e1: "exchanges s1 = exchanges s + length (filter is_exchange pre)"
    by (simp add: exchanges_append)
  let ?url = "TrimRight (OAC_INSTANCE env) ''/'' @ ''/'' @ TrimLeft path ''/''"
  show ?thesis
  proof (cases r1)
    case (Inl err)
    with assms g1 have "r = Inl err" "s' = s1"
      by (simp_all add: RestCall_def)
    moreover from auth1 [OF Inl] have "\<forall>code body. err \<noteq> RequestFailed code body"
      by auto
    ultimately show ?thesis
      using pre g1 Inl by (intro unsent [of err pre]) simp_all
  next
    case tok1: (Inr token)
    show ?thesis
    proof (cases "resolveBody ext bodyFile")
      case (Inl err)
      with assms g1 tok1 have "r = Inl err" "s' = s1"
        by (simp_all add: RestCall_def)
      moreover from Inl have "\<forall>code body. err \<noteq> RequestFailed code body"
        by (auto simp: resolveBody_def split: if_splits sum.splits)
      ultimately show ?thesis
        using pre Inl by (intro unsent [of err pre]) simp_all
    next
      case body: (Inr bodyBytes)
      show ?thesis
      proof (cases "NewRequest ext (ToUpper method) ?url bodyBytes")
        case (Inl err)
        with assms g1 tok1 body have "r = Inl err" "s' = s1"
          by (simp_all add: RestCall_def)
        moreover from Inl have "\<forall>code body. err \<noteq> RequestFailed code body"
          by (auto simp: NewRequest_def split: option.splits)
        ultimately show ?thesis
          using pre Inl body by (intro unsent [of err pre]) simp_all
      next
        case new: (Inr req0)
        define req where "req = Header_Set (Header_Set req0 ''Authorization'' (''Bearer '' @ token))
                                 ''Content-Type'' ''application/json''"
        define s2 where "s2 = s1\<lparr>trace := trace s1 @ [HttpDo req]\<rparr>"
        have do1: "Do ext s1 req = (server ext (attempts s) req, s2, req\<lparr>Body := []\<rparr>)"
          by (simp add: Do_def a1 s2_def)
        have t2: "trace s2 = trace s @ pre @ [HttpDo req]"
          by (simp add: s2_def pre)
        from assms g1 tok1 body new have rest: "(r, s', c') =
          (case Do ext s1 req of
             (Inl err, s2, req2) \<Rightarrow> (Inl (HttpError err), s2, c1)
           | (Inr resp, s2, req2) \<Rightarrow>
               (if StatusCode resp = 401 then
                  (case GetToken ext env s2 (c1\<lparr>AccessToken := []\<rparr>) of
                     (Inl err, s3, c3) \<Rightarrow> (Inl err, s3, c3)
                   | (Inr token2, s3, c3) \<Rightarrow>
                       (case Do ext s3 (Header_Set req2 ''Authorization'' (''Bearer '' @ token2)) of
                          (Inl err, s4, req4) \<Rightarrow> (Inl (HttpError err), s4, c3)
                        | (Inr resp2, s4, req4) \<Rightarrow> (respond ext resp2, s4, c3)))
                else (respond ext resp, s2, c1)))"
          by (simp add: RestCall_def req_def Let_def)
        show ?thesis
        proof (cases "server ext (attempts s) req")
          case (Inl m)
          with rest do1 have "r = Inl (HttpError m)" "s' = s2"
            by simp_all
          with t2 pre Inl show ?thesis
            by (intro transport [of m pre req]) simp_all
        next
          case ans: (Inr resp)
          show ?thesis
          proof (cases "StatusCode resp = 401")
            case False
            with rest do1 ans have "r = respond ext resp" "s' = s2"
              by simp_all
            with t2 pre ans False show ?thesis
              by (intro answered [of resp pre req]) simp_all
          next
            case True
            obtain r3 s3 c3 where g3: "GetToken ext env s2 (c1\<lparr>AccessToken := []\<rparr>) = (r3, s3, c3)"
              by (metis prod_cases3)
            from rest do1 ans True g3 have rest3: "(r, s', c') =
              (case r3 of
                 Inl err \<Rightarrow> (Inl err, s3, c3)
               | Inr token2 \<Rightarrow>
                   (case Do ext s3 (Header_Set (req\<lparr>Body := []\<rparr>) ''Authorization''
                                      (''Bearer '' @ token2)) of
                      (Inl err, s4, req4) \<Rightarrow> (Inl (HttpError err), s4, c3)
                    | (Inr resp2, s4, req4) \<Rightarrow> (respond ext resp2, s4, c3)))"
              by (simp split: sum.splits)
            from g3 show ?thesis
            proof (cases rule: GetToken_cases)
              case cached
              then show ?thesis by simp
            next
              case (refused err)
              with rest3 have "r = Inl err" "s' = s3" "c' = c3"
                by simp_all
              with refused t2 pre ans True g1 show ?thesis
                by (intro stopped [of err pre req "[]" resp]) simp_all
            next
              case (failed m x)
              with rest3 have "r = Inl (FailedToObtain m)" "s' = s3" "c' = c3"
                by simp_all
              moreover have "exchanges s2 = exchanges s + length (filter is_exchange pre)"
                using t2 by (simp add: exchanges_def)
              ultimately show ?thesis
                using failed t2 pre ans True g1
                by (intro stopped [of "FailedToObtain m" pre req "[TokenExchange x]" resp]) simp_all
            next
              case (fresh x token2)
              define req3 where "req3 = Header_Set (req\<lparr>Body := []\<rparr>) ''Authorization''
                                      (''Bearer '' @ tok_AccessToken token2)"
              from fresh t2 have t3: "trace s3 = trace s @ pre @ [HttpDo req, TokenExchange x]"
                by simp
              then have a3: "attempts s3 = Suc (attempts s)"
                using pre(2) by (simp add: attempts_def)
              have do3: "Do ext s3 req3 =
                  (server ext (Suc (attempts s)) req3, s3\<lparr>trace := trace s3 @ [HttpDo req3]\<rparr>,
                   req3\<lparr>Body := []\<rparr>)"
                by (simp add: Do_def a3)
              from rest3 fresh do3 have
                "r = (case server ext (Suc (attempts s)) req3 of
                        Inl m \<Rightarrow> Inl (HttpError m) | Inr resp2 \<Rightarrow> respond ext resp2)"
                "s' = s3\<lparr>trace := trace s3 @ [HttpDo req3]\<rparr>" "c' = c3"
                by (simp_all add: req3_def split: sum.splits)
              moreover have "exchanges s2 = exchanges s + length (filter is_exchange pre)"
                using t2 by (simp add: exchanges_def)
              ultimately show ?thesis
                using fresh t3 pre ans True g1
                by (intro retried [of req3 pre req x resp token2])
                  (simp_all add: req3_def Header_Set_def)
            qed
          qed
        qed
      qed
    qed
  qed
qed


lemmas run_defs = RestCall_def GetToken_def obtainToken_def grantDispatch_def Token_def Do_def
  time_Now_def resolveBody_def NewRequest_def Header_Set_def respond_def
  TrimRight_def TrimLeft_def world_def creds_def unset_def start_def blank_def issued_def
  holding_def IsZero_def zeroTime_def Second_def Minute_def Add_def saveTokenToFile_def
  exchanges_def attempts_def Before_def Let_def

lemma ToUpper_get: "ToUpper ''get'' = ''GET''"
  by code_simp

lemma ToUpper_post: "ToUpper ''post'' = ''POST''"
  by code_simp

text \<open>
  C2, as amended. Let every HTTP attempt be answered with status 401. Then RestCall
  fails, and it makes no attempt, one, or two, never three. It makes two exactly when it
  fails with the request error, which carries 401 and the body of the second response as
  it was read; it makes one only with the error of a token acquisition, and none only
  with an error that is not the request error. And what decides between one and two is
  the token acquisition after the first 401. Let the first token be acquired, the body
  resolved and the request built. If the configuration selects an exchange and the
  provider answers it with a token, RestCall makes exactly two attempts and fails with
  the request error for 401. If the provider answers it with an error, or the
  configuration is refused, RestCall makes exactly one attempt and fails with the error
  of the exchange, or of the configuration.
\<close>

theorem RestCall_all_401:
  assumes "\<forall>n req. \<exists>resp. server ext n req = Inr resp \<and> StatusCode resp = 401"
    and "RestCall ext env s c method path bodyFile = (r, s', c')"
  shows "(\<exists>err. r = Inl err \<and>
           ((attempts s' = attempts s + 2 \<and>
             (\<exists>req2 resp2. last (trace s') = HttpDo req2 \<and>
                server ext (Suc (attempts s)) req2 = Inr resp2 \<and>
                err = RequestFailed 401 (RespBody resp2)))
          \<or> (attempts s' = attempts s + 1 \<and> is_auth_error err \<and> AccessToken c' = [])
          \<or> (attempts s' = attempts s \<and> (\<forall>code body. err \<noteq> RequestFailed code body)))) \<and>
         (\<forall>tok b req0.
            fst (GetToken ext env s c) = Inr tok \<and> resolveBody ext bodyFile = Inr b \<and>
            NewRequest ext (ToUpper method)
              (TrimRight (OAC_INSTANCE env) ''/'' @ ''/'' @ TrimLeft path ''/'') b = Inr req0 \<longrightarrow>
              (\<forall>x token. grantDispatch env = Inr x \<and>
                 idp ext (exchanges (fst (snd (GetToken ext env s c)))) x = Inr token \<longrightarrow>
                   attempts s' = attempts s + 2 \<and> (\<exists>body. r = Inl (RequestFailed 401 body)) \<and>
                   AccessToken c' = tok_AccessToken token) \<and>
              (\<forall>x m. grantDispatch env = Inr x \<and>
                 idp ext (exchanges (fst (snd (GetToken ext env s c)))) x = Inl m \<longrightarrow>
                   attempts s' = attempts s + 1 \<and> r = Inl (FailedToObtain m)) \<and>
              (\<forall>err. grantDispatch env = Inl err \<longrightarrow>
                   attempts s' = attempts s + 1 \<and> r = Inl err))"
  using assms(2)
proof (cases rule: RestCall_cases)
  case (unsent err pre)
  then show ?thesis
    by (auto simp: attempts_append)
next
  case (transport pre req m)
  with assms(1) show ?thesis
    by (metis Inl_Inr_False)
next
  case (answered pre req resp)
  with assms(1) show ?thesis
    by (metis sum.inject(2))
next
  case (stopped pre req resp mid err)
  then have a: "attempts s' = attempts s + 1"
    by (simp add: attempts_def)
  from stopped have e: "exchanges (fst (snd (GetToken ext env s c))) =
      exchanges s + length (filter is_exchange pre)"
    by (simp add: exchanges_def)
  from stopped(10) show ?thesis
  proof
    assume "grantDispatch env = Inl err \<and> mid = []"
    with stopped(1-3) a show ?thesis
      by simp
  next
    assume "\<exists>x m. grantDispatch env = Inr x \<and>
          idp ext (exchanges s + length (filter is_exchange pre)) x = Inl m \<and>
          err = FailedToObtain m \<and> mid = [TokenExchange x]"
    with stopped(1-3) a e show ?thesis
      by auto
  qed
next
  case (retried pre req resp x token req2)
  from assms(1) obtain resp2 where
    r2: "server ext (Suc (attempts s)) req2 = Inr resp2" "StatusCode resp2 = 401"
    by blast
  with retried(1) have r: "r = Inl (RequestFailed 401 (RespBody resp2))"
    by (simp add: respond_401)
  from retried have a: "attempts s' = attempts s + 2" "last (trace s') = HttpDo req2"
    by (simp_all add: attempts_def)
  from retried have e: "exchanges (fst (snd (GetToken ext env s c))) =
      exchanges s + length (filter is_exchange pre)"
    by (simp add: exchanges_def)
  from r a r2 e retried(6,7,14) show ?thesis
    by auto
qed

text \<open>
  A GET with no token cached, a provider that issues tokens and a server that answers
  401 to everything: the token is acquired twice, so there are two attempts, and the
  error is the request error with the server's body.
\<close>

theorem RestCall_all_401_witness:
  "fst (RestCall (world (Inr (issued ''new'' 5000)) 401) (creds ''client_credentials'')
      start blank ''get'' ''/reports'' []) = Inl (RequestFailed 401 ''denied'') \<and>
   attempts (fst (snd (RestCall (world (Inr (issued ''new'' 5000)) 401)
      (creds ''client_credentials'') start blank ''get'' ''/reports'' []))) = 2"
proof -
  let ?W = "world (Inr (issued ''new'' 5000)) 401"
  let ?run = "RestCall ?W (creds ''client_credentials'') start blank ''get'' ''/reports'' []"
  let ?x = "ClientCredentials \<lparr>ClientID = ''id'', ClientSecret = ''secret'',
         TokenURL = ''https://idcs/oauth2/v1/token'', Scopes = [''scope'']\<rparr>"
  let ?req0 = "\<lparr>Method = ''GET'', URL = ''https://oac/reports'', Header = Map.empty,
         ContentLength = 0, Body = []\<rparr>"
  have all: "\<forall>n req. \<exists>resp. server ?W n req = Inr resp \<and> StatusCode resp = 401"
    by (simp add: world_def)
  have run: "?run = (fst ?run, fst (snd ?run), snd (snd ?run))"
    by simp
  have first: "fst (GetToken ?W (creds ''client_credentials'') start blank) = Inr ''new''"
    by (simp add: run_defs)
  have body: "resolveBody ?W [] = Inr []"
    by (simp add: resolveBody_def)
  have built: "NewRequest ?W (ToUpper ''get'')
      (TrimRight (OAC_INSTANCE (creds ''client_credentials'')) ''/'' @ ''/'' @
       TrimLeft ''/reports'' ''/'') [] = Inr ?req0"
    by (simp add: run_defs ToUpper_get)
  have again: "grantDispatch (creds ''client_credentials'') = Inr ?x"
    "idp ?W (exchanges (fst (snd (GetToken ?W (creds ''client_credentials'') start blank)))) ?x =
       Inr (issued ''new'' 5000)"
    by (simp_all add: grantDispatch_def creds_def TrimRight_def world_def)
  from RestCall_all_401 [OF all run] first body built again
  have two: "attempts (fst (snd ?run)) = attempts start + 2"
    by blast
  with RestCall_all_401 [OF all run] show ?thesis
    by (auto simp: start_def attempts_def world_def)
qed

text \<open>
  C2 as stated fails: a valid token is cached, the server answers 401, and the provider
  cannot be reached when the token is to be acquired again. RestCall makes one attempt,
  not two, and the error is that of the token exchange, not the request error.
\<close>

theorem RestCall_one_attempt_counterexample:
  "server (world (Inl ''connection refused'') 401) =
     (\<lambda>n req. Inr \<lparr>StatusCode = 401, RespBody = ''denied'', ReadErr = None\<rparr>) \<and>
   fst (RestCall (world (Inl ''connection refused'') 401) (creds ''client_credentials'')
      start (holding ''cached'' 2000) ''get'' ''/reports'' []) =
     Inl (FailedToObtain ''connection refused'') \<and>
   attempts (fst (snd (RestCall (world (Inl ''connection refused'') 401)
      (creds ''client_credentials'') start (holding ''cached'' 2000) ''get'' ''/reports'' []))) = 1"
  by (simp add: run_defs ToUpper_get ToUpper_post)

text \<open>
  C6, as amended. Let RestCall make a first HTTP attempt that is answered with status
  401. Then it clears the client's access token and calls GetToken, which goes to
  obtainToken; what that does decides the rest. If the configuration is refused, or the
  provider answers the exchange with an error, RestCall returns that error, the access
  token stays empty and no second attempt is made. If the provider answers the exchange
  with a token, RestCall calls \<^verbatim>\<open>Do\<close> once more and no further time, after that one
  exchange, on a request with the same method, URL and content length, whose headers are
  those of the first but for \<^verbatim>\<open>Authorization\<close>, which carries the token just obtained;
  that token is the one the client holds afterwards. What the second attempt sends as
  its body is not part of this statement.
\<close>

theorem RestCall_retry_once:
  assumes "RestCall ext env s c method path bodyFile = (r, s', c')"
    and "filter is_http (drop (length (trace s)) (trace s')) = HttpDo req1 # later"
    and "server ext (attempts s) req1 = Inr resp1"
    and "StatusCode resp1 = 401"
  shows "((later = [] \<and> AccessToken c' = [] \<and> (\<exists>err. r = Inl err \<and> is_auth_error err))
       \<or> (\<exists>req2 x token pre. later = [HttpDo req2] \<and>
             trace s' = trace s @ pre @ [HttpDo req1, TokenExchange x, HttpDo req2] \<and>
             filter is_http pre = [] \<and>
             idp ext (exchanges s + length (filter is_exchange pre)) x = Inr token \<and>
             AccessToken c' = tok_AccessToken token \<and>
             Method req2 = Method req1 \<and> URL req2 = URL req1 \<and>
             ContentLength req2 = ContentLength req1 \<and>
             Header req2 =
               (Header req1)(''Authorization'' \<mapsto> ''Bearer '' @ tok_AccessToken token))) \<and>
         (\<exists>pre rest. trace s' = trace s @ pre @ HttpDo req1 # rest \<and> filter is_http pre = [] \<and>
            (\<forall>err. grantDispatch env = Inl err \<longrightarrow>
               r = Inl err \<and> AccessToken c' = [] \<and> later = [] \<and> rest = []) \<and>
            (\<forall>x m. grantDispatch env = Inr x \<and>
               idp ext (exchanges s + length (filter is_exchange pre)) x = Inl m \<longrightarrow>
                 r = Inl (FailedToObtain m) \<and> AccessToken c' = [] \<and> later = [] \<and>
                 rest = [TokenExchange x]) \<and>
            (\<forall>x token. grantDispatch env = Inr x \<and>
               idp ext (exchanges s + length (filter is_exchange pre)) x = Inr token \<longrightarrow>
                 (\<exists>req2. later = [HttpDo req2] \<and> rest = [TokenExchange x, HttpDo req2] \<and>
                    AccessToken c' = tok_AccessToken token \<and>
                    Method req2 = Method req1 \<and> URL req2 = URL req1 \<and>
                    ContentLength req2 = ContentLength req1 \<and>
                    Header req2 =
                      (Header req1)(''Authorization'' \<mapsto> ''Bearer '' @ tok_AccessToken token))))"
  using assms(1)
proof (cases rule: RestCall_cases)
  case (unsent err pre)
  with assms(2) show ?thesis
    by simp
next
  case (transport pre req m)
  with assms(2) have "req1 = req"
    by simp
  with transport assms(3) show ?thesis
    by simp
next
  case (answered pre req resp)
  with assms(2) have "req1 = req"
    by simp
  with answered assms(3,4) show ?thesis
    by simp
next
  case (stopped pre req resp mid err)
  with assms(2) have l: "later = []" "req1 = req"
    by simp_all
  from stopped(10) show ?thesis
  proof
    assume "grantDispatch env = Inl err \<and> mid = []"
    with stopped(1-5) l show ?thesis
      by (intro conjI exI [of _ pre] exI [of _ "[]"]) auto
  next
    assume "\<exists>x m. grantDispatch env = Inr x \<and>
          idp ext (exchanges s + length (filter is_exchange pre)) x = Inl m \<and>
          err = FailedToObtain m \<and> mid = [TokenExchange x]"
    then obtain x m where f: "grantDispatch env = Inr x"
      "idp ext (exchanges s + length (filter is_exchange pre)) x = Inl m"
      "err = FailedToObtain m" "mid = [TokenExchange x]"
      by blast
    with stopped(1-5) l show ?thesis
      by (intro conjI exI [of _ pre] exI [of _ "[TokenExchange x]"]) auto
  qed
next
  case (retried pre req resp x token req2)
  with assms(2) have l: "req1 = req" "later = [HttpDo req2]"
    by simp_all
  have first: "(later = [] \<and> AccessToken c' = [] \<and> (\<exists>err. r = Inl err \<and> is_auth_error err))
       \<or> (\<exists>req2 x token pre. later = [HttpDo req2] \<and>
             trace s' = trace s @ pre @ [HttpDo req1, TokenExchange x, HttpDo req2] \<and>
             filter is_http pre = [] \<and>
             idp ext (exchanges s + length (filter is_exchange pre)) x = Inr token \<and>
             AccessToken c' = tok_AccessToken token \<and>
             Method req2 = Method req1 \<and> URL req2 = URL req1 \<and>
             ContentLength req2 = ContentLength req1 \<and>
             Header req2 =
               (Header req1)(''Authorization'' \<mapsto> ''Bearer '' @ tok_AccessToken token))"
    using retried l by blast
  have second: "\<exists>pre rest. trace s' = trace s @ pre @ HttpDo req1 # rest \<and> filter is_http pre = [] \<and>
            (\<forall>err. grantDispatch env = Inl err \<longrightarrow>
               r = Inl err \<and> AccessToken c' = [] \<and> later = [] \<and> rest = []) \<and>
            (\<forall>x m. grantDispatch env = Inr x \<and>
               idp ext (exchanges s + length (filter is_exchange pre)) x = Inl m \<longrightarrow>
                 r = Inl (FailedToObtain m) \<and> AccessToken c' = [] \<and> later = [] \<and>
                 rest = [TokenExchange x]) \<and>
            (\<forall>x token. grantDispatch env = Inr x \<and>
               idp ext (exchanges s + length (filter is_exchange pre)) x = Inr token \<longrightarrow>
                 (\<exists>req2. later = [HttpDo req2] \<and> rest = [TokenExchange x, HttpDo req2] \<and>
                    AccessToken c' = tok_AccessToken token \<and>
                    Method req2 = Method req1 \<and> URL req2 = URL req1 \<and>
                    ContentLength req2 = ContentLength req1 \<and>
                    Header req2 =
                      (Header req1)(''Authorization'' \<mapsto> ''Bearer '' @ tok_AccessToken token)))"
    using retried(2,3,6-11,14) l
    by (intro exI [of _ pre] exI [of _ "[TokenExchange x, HttpDo req2]"]) auto
  from first second show ?thesis
    by (rule conjI)
qed

text \<open>
  The GET of before, now looking at the requests: one exchange, the first attempt, a
  second exchange, the second attempt, which differs from the first in nothing.
\<close>

theorem RestCall_retry_once_witness:
  "map is_http (trace (fst (snd (RestCall (world (Inr (issued ''new'' 5000)) 401)
      (creds ''client_credentials'') start blank ''get'' ''/reports'' [])))) =
     [False, True, False, True] \<and>
   AccessToken (snd (snd (RestCall (world (Inr (issued ''new'' 5000)) 401)
      (creds ''client_credentials'') start blank ''get'' ''/reports'' []))) = ''new''"
proof -
  let ?W = "world (Inr (issued ''new'' 5000)) 401"
  let ?run = "RestCall ?W (creds ''client_credentials'') start blank ''get'' ''/reports'' []"
  let ?x = "ClientCredentials \<lparr>ClientID = ''id'', ClientSecret = ''secret'',
         TokenURL = ''https://idcs/oauth2/v1/token'', Scopes = [''scope'']\<rparr>"
  let ?req1 = "\<lparr>Method = ''GET'', URL = ''https://oac/reports'',
      Header = [''Authorization'' \<mapsto> ''Bearer new'', ''Content-Type'' \<mapsto> ''application/json''],
      ContentLength = 0, Body = []\<rparr>"
  let ?req2 = "\<lparr>Method = ''GET'', URL = ''https://oac/reports'',
      Header = [''Content-Type'' \<mapsto> ''application/json'', ''Authorization'' \<mapsto> ''Bearer new''],
      ContentLength = 0, Body = []\<rparr>"
  have run: "?run = (fst ?run, fst (snd ?run), snd (snd ?run))"
    by simp
  have sent: "filter is_http (drop (length (trace start)) (trace (fst (snd ?run)))) =
      HttpDo ?req1 # [HttpDo ?req2]"
    by (simp add: run_defs ToUpper_get)
  have denied: "server ?W (attempts start) ?req1 =
      Inr \<lparr>StatusCode = 401, RespBody = ''denied'', ReadErr = None\<rparr>"
    by (simp add: world_def)
  have st: "StatusCode \<lparr>StatusCode = 401, RespBody = ''denied'', ReadErr = None\<rparr> = 401"
    by simp
  have gd: "grantDispatch (creds ''client_credentials'') = Inr ?x"
    by (simp add: grantDispatch_def creds_def TrimRight_def)
  have idp: "idp ?W n ?x = Inr (issued ''new'' 5000)" for n
    by (simp add: world_def)
  have len: "length (trace (fst (snd ?run))) = 4"
    by (simp add: run_defs ToUpper_get)
  from RestCall_retry_once [OF run sent denied st, THEN conjunct2] show ?thesis
  proof (elim exE conjE)
    fix pre rest
    assume t: "trace (fst (snd ?run)) = trace start @ pre @ HttpDo ?req1 # rest"
      and f: "filter is_http pre = []"
      and c: "\<forall>x token. grantDispatch (creds ''client_credentials'') = Inr x \<and>
           idp ?W (exchanges start + length (filter is_exchange pre)) x = Inr token \<longrightarrow>
             (\<exists>req2. [HttpDo ?req2] = [HttpDo req2] \<and> rest = [TokenExchange x, HttpDo req2] \<and>
                AccessToken (snd (snd ?run)) = tok_AccessToken token \<and>
                Method req2 = Method ?req1 \<and> URL req2 = URL ?req1 \<and>
                ContentLength req2 = ContentLength ?req1 \<and>
                Header req2 =
                  (Header ?req1)(''Authorization'' \<mapsto> ''Bearer '' @ tok_AccessToken token))"
    from c [rule_format, OF conjI, OF gd idp] obtain req2 where
      "[HttpDo ?req2] = [HttpDo req2]" "rest = [TokenExchange ?x, HttpDo req2]"
      "AccessToken (snd (snd ?run)) = tok_AccessToken (issued ''new'' 5000)"
      by (elim exE conjE)
    then have rest: "rest = [TokenExchange ?x, HttpDo ?req2]"
      and tok: "AccessToken (snd (snd ?run)) = ''new''"
      by (simp_all add: issued_def)
    with t len have "length pre = 1"
      by (simp add: start_def)
    then obtain e where pre: "pre = [e]"
      by (cases pre) auto
    with f have "\<not> is_http e"
      by (simp split: if_splits)
    with t rest pre tok show ?thesis
      by (simp add: start_def)
  qed
qed

text \<open>
  C6 as stated fails where the token cannot be acquired again: a valid token is cached
  and no variable is set. After the 401 the token is cleared, obtainToken refuses the
  configuration, and the request is not issued a second time.
\<close>

theorem RestCall_no_retry_counterexample:
  "fst (RestCall (world (Inr (issued ''new'' 5000)) 401) unset start (holding ''cached'' 2000)
      ''get'' ''/reports'' []) = Inl MissingEnv \<and>
   attempts (fst (snd (RestCall (world (Inr (issued ''new'' 5000)) 401) unset start
      (holding ''cached'' 2000) ''get'' ''/reports'' []))) = 1 \<and>
   AccessToken (snd (snd (RestCall (world (Inr (issued ''new'' 5000)) 401) unset start
      (holding ''cached'' 2000) ''get'' ''/reports'' []))) = []"
  by (simp add: run_defs ToUpper_get ToUpper_post)

text \<open>
  The body of the second attempt. The request is built once, around a reader of the
  payload, and the same request is passed to \<^verbatim>\<open>Do\<close> twice; the first call reads the
  reader to its end. For a POST of two bytes the second attempt declares two bytes and
  has none left to send.
\<close>

lemma RestCall_retry_body:
  "map (\<lambda>e. case e of HttpDo req \<Rightarrow> (ContentLength req, Body req) | TokenExchange x \<Rightarrow> (0, []))
     (filter is_http (trace (fst (snd (RestCall (world (Inr (issued ''new'' 5000)) 401)
        (creds ''client_credentials'') start blank ''post'' ''/reports'' ''{}''))))) =
   [(2, ''{}''), (2, [])]"
  by (simp add: run_defs ToUpper_get ToUpper_post)

end
